theory Spec2Isabelle
  imports Complex_Main "HOL-Library.Word"
begin

unbundle bit_operations_syntax

section \<open>The renderer of \<^verbatim>\<open>graphics.c\<close>\<close>

text \<open>
  \<^verbatim>\<open>graphics.c\<close> owns one \<^verbatim>\<open>Graphics\<close> structure and talks to the OpenGL ES driver.
  The embedding passes the structure explicitly and keeps, beside it, a \<open>world\<close>: the
  sequence of calls made to the driver and to the helper libraries (oldest first), the
  driver's current framebuffer binding, and the heap objects behind the \<^verbatim>\<open>Mesh*\<close> and
  \<^verbatim>\<open>Texture*\<close> pointers. An \<^verbatim>\<open>assert\<close> that fails, an array index outside its array and
  the dereference of a pointer with no object behind it end the run with a \<open>fault\<close>.

  \<^verbatim>\<open>Mat4\<close>, \<^verbatim>\<open>Transform\<close>, \<^verbatim>\<open>Light\<close> and \<^verbatim>\<open>float\<close> are type variables
  (\<open>'m\<close>, \<open>'t\<close>, \<open>'l\<close>, \<open>'f\<close>): their declarations and operations live in headers that are
  not part of \<^verbatim>\<open>graphics.c\<close>, and enter as parameters.
\<close>

subsection \<open>Machine types and OpenGL ES constants\<close>

type_synonym GLuint = "32 word"
type_synonym GLint = "32 word"
type_synonym GLenum = "32 word"

text \<open>The values of the OpenGL ES 3.0 headers (\<^verbatim>\<open>GLES3/gl3.h\<close>).\<close>

definition GL_FALSE :: GLint where "GL_FALSE = 0"
definition GL_TRIANGLES :: GLenum where "GL_TRIANGLES = 0x0004"
definition GL_DEPTH_BUFFER_BIT :: GLenum where "GL_DEPTH_BUFFER_BIT = 0x0100"
definition GL_COLOR_BUFFER_BIT :: GLenum where "GL_COLOR_BUFFER_BIT = 0x4000"
definition GL_CW :: GLenum where "GL_CW = 0x0900"
definition GL_CULL_FACE :: GLenum where "GL_CULL_FACE = 0x0B44"
definition GL_DEPTH_TEST :: GLenum where "GL_DEPTH_TEST = 0x0B71"
definition GL_TEXTURE_2D :: GLenum where "GL_TEXTURE_2D = 0x0DE1"
definition GL_UNSIGNED_BYTE :: GLenum where "GL_UNSIGNED_BYTE = 0x1401"
definition GL_UNSIGNED_INT :: GLenum where "GL_UNSIGNED_INT = 0x1405"
definition GL_FLOAT :: GLenum where "GL_FLOAT = 0x1406"
definition GL_DEPTH_COMPONENT :: GLenum where "GL_DEPTH_COMPONENT = 0x1902"
definition GL_RGBA :: GLenum where "GL_RGBA = 0x1908"
definition GL_RENDERER :: GLenum where "GL_RENDERER = 0x1F01"
definition GL_VERSION :: GLenum where "GL_VERSION = 0x1F02"
definition GL_EXTENSIONS :: GLenum where "GL_EXTENSIONS = 0x1F03"
definition GL_NEAREST :: GLenum where "GL_NEAREST = 0x2600"
definition GL_TEXTURE_MAG_FILTER :: GLenum where "GL_TEXTURE_MAG_FILTER = 0x2800"
definition GL_TEXTURE_MIN_FILTER :: GLenum where "GL_TEXTURE_MIN_FILTER = 0x2801"
definition GL_TEXTURE_WRAP_S :: GLenum where "GL_TEXTURE_WRAP_S = 0x2802"
definition GL_TEXTURE_WRAP_T :: GLenum where "GL_TEXTURE_WRAP_T = 0x2803"
definition GL_CLAMP_TO_EDGE :: GLenum where "GL_CLAMP_TO_EDGE = 0x812F"
definition GL_TEXTURE0 :: GLenum where "GL_TEXTURE0 = 0x84C0"
definition GL_ARRAY_BUFFER :: GLenum where "GL_ARRAY_BUFFER = 0x8892"
definition GL_ELEMENT_ARRAY_BUFFER :: GLenum where "GL_ELEMENT_ARRAY_BUFFER = 0x8893"
definition GL_FRAGMENT_SHADER :: GLenum where "GL_FRAGMENT_SHADER = 0x8B30"
definition GL_VERTEX_SHADER :: GLenum where "GL_VERTEX_SHADER = 0x8B31"
definition GL_LINK_STATUS :: GLenum where "GL_LINK_STATUS = 0x8B82"
definition GL_FRAMEBUFFER_BINDING :: GLenum where "GL_FRAMEBUFFER_BINDING = 0x8CA6"
definition GL_FRAMEBUFFER_COMPLETE :: GLenum where "GL_FRAMEBUFFER_COMPLETE = 0x8CD5"
definition GL_FRAMEBUFFER_INCOMPLETE_ATTACHMENT :: GLenum where
  "GL_FRAMEBUFFER_INCOMPLETE_ATTACHMENT = 0x8CD6"
definition GL_FRAMEBUFFER_INCOMPLETE_MISSING_ATTACHMENT :: GLenum where
  "GL_FRAMEBUFFER_INCOMPLETE_MISSING_ATTACHMENT = 0x8CD7"
definition GL_FRAMEBUFFER_INCOMPLETE_DIMENSIONS :: GLenum where
  "GL_FRAMEBUFFER_INCOMPLETE_DIMENSIONS = 0x8CD9"
definition GL_FRAMEBUFFER_UNSUPPORTED :: GLenum where "GL_FRAMEBUFFER_UNSUPPORTED = 0x8CDD"
definition GL_COLOR_ATTACHMENT0 :: GLenum where "GL_COLOR_ATTACHMENT0 = 0x8CE0"
definition GL_DEPTH_ATTACHMENT :: GLenum where "GL_DEPTH_ATTACHMENT = 0x8D00"
definition GL_FRAMEBUFFER :: GLenum where "GL_FRAMEBUFFER = 0x8D40"

text \<open>The \<^verbatim>\<open>#define\<close>s of \<^verbatim>\<open>graphics.c\<close> that the code uses.\<close>

definition MAX_RENDER_COMMANDS :: int where "MAX_RENDER_COMMANDS = 1024"
definition MAX_LIGHTS :: int where "MAX_LIGHTS = 64"

subsection \<open>Types\<close>

text \<open>
  The attribute slots that \<^verbatim>\<open>graphics.c\<close> names. A vertex description is one entry of a
  vertex layout: a slot and a component count; a layout is an array of entries that ends
  with an entry of count 0. \<^verbatim>\<open>Mesh\<close> has the fields that \<^verbatim>\<open>graphics.c\<close> reads.
\<close>

datatype AttributeSlot = kPositionSlot | kNormalSlot | kTexCoordSlot

record VertexDescription =
  slot :: AttributeSlot
  count :: int

record Mesh =
  vertex_buffer :: GLuint
  index_buffer :: GLuint
  index_count :: int
  index_format :: GLenum
  vertex_size :: int
  type :: nat

record Texture =
  texture :: GLuint

text \<open>A \<^verbatim>\<open>Mesh*\<close> or \<^verbatim>\<open>Texture*\<close> is an address; the world's heaps say what lives there.\<close>

type_synonym mesh_ptr = nat
type_synonym texture_ptr = nat

record 't RenderCommand =
  transform :: 't
  mesh :: mesh_ptr
  diffuse :: texture_ptr

text \<open>
  \<^verbatim>\<open>struct Graphics\<close>. The two arrays are lists, of length \<^verbatim>\<open>MAX_RENDER_COMMANDS\<close> and
  \<^verbatim>\<open>MAX_LIGHTS\<close> in every structure the code allocates. The two \<^verbatim>\<open>int\<close> counters are
  integers: they start at 0 and the code only adds one to them or resets them, and stops
  (by the assertion, or by the write outside the array) before they pass 1025, far from
  the limits of a 32-bit \<^verbatim>\<open>int\<close>.
\<close>

record ('m, 't, 'l) Graphics =
  program :: GLuint
  projection_uniform :: GLuint
  view_uniform :: GLuint
  world_uniform :: GLuint
  diffuse_uniform :: GLuint
  lights_uniform :: GLuint
  num_lights_uniform :: GLuint
  color_renderbuffer :: GLuint
  depth_renderbuffer :: GLuint
  depth_texture :: GLuint
  framebuffer :: GLuint
  width :: int
  height :: int
  projection_matrix :: 'm
  view_transform :: 't
  fullscreen_program :: GLuint
  fullscreen_texture_uniform :: GLuint
  cube_mesh :: mesh_ptr
  quad_mesh :: mesh_ptr
  commands :: "'t RenderCommand list"
  num_commands :: int
  lights :: "'l list"
  num_lights :: int

subsection \<open>The driver, the helper libraries and the world\<close>

datatype log_arg = IntArg int | UIntArg GLuint | StrArg string

datatype builtin_mesh = CubeGeometry | QuadGeometry

text \<open>
  One constructor for each function that \<^verbatim>\<open>graphics.c\<close> calls outside itself, with the
  arguments of the call (an output pointer, a null pointer and a buffer the call only
  fills are left out). \<open>glUniform3fv\<close> is passed the address of the \<^verbatim>\<open>lights\<close> array and a
  count: the event holds the array behind that address, and the count.
  \<open>gl_create_mesh\<close> is passed the constant vertex and index arrays of one of the two
  built-in geometries, which are declared outside \<^verbatim>\<open>graphics.c\<close>; the event names the
  geometry.
\<close>

datatype ('f, 'm, 'l) event =
    glGenTextures int
  | glBindTexture GLenum GLuint
  | glTexParameteri GLenum GLenum GLenum
  | glTexImage2D GLenum int GLenum int int int GLenum GLenum
  | CheckGLError
  | glGenFramebuffers int
  | glBindFramebuffer GLenum GLuint
  | glFramebufferTexture2D GLenum GLenum GLenum GLuint int
  | glCheckFramebufferStatus GLenum
  | system_log string "log_arg list"
  | gl_load_shader string GLenum
  | glCreateProgram
  | glAttachShader GLuint GLuint
  | glBindAttribLocation GLuint AttributeSlot string
  | glLinkProgram GLuint
  | glGetProgramiv GLuint GLenum
  | glGetProgramInfoLog GLuint int
  | glDetachShader GLuint GLuint
  | glDeleteShader GLuint
  | glGetUniformLocation GLuint string
  | glBindBuffer GLenum GLuint
  | glVertexAttribPointer AttributeSlot int GLenum GLint int int
  | glDrawElements GLenum int GLenum
  | glEnable GLenum
  | glFrontFace GLenum
  | glViewport int int int int
  | glClearColor 'f 'f 'f 'f
  | glClearDepthf 'f
  | glGetString GLenum
  | gl_create_mesh builtin_mesh
  | glGetIntegerv GLenum
  | glClear GLenum
  | glUseProgram GLuint
  | glEnableVertexAttribArray AttributeSlot
  | glUniformMatrix4fv GLuint int GLint 'm
  | glUniform3fv GLuint int "'l list"
  | glUniform1i GLuint int
  | glActiveTexture GLenum

record ('f, 'm, 'l) world =
  trace :: "('f, 'm, 'l) event list"
  framebuffer_binding :: GLuint
  mesh_heap :: "nat \<Rightarrow> Mesh option"
  texture_heap :: "nat \<Rightarrow> Texture option"

text \<open>
  What the driver and the helpers answer is not decided by \<^verbatim>\<open>graphics.c\<close>: an answer is
  a function of the calls made so far, the asking call included. \<open>answer\<close> gives the
  32-bit answers (generated names, shader and program handles, uniform locations, the
  framebuffer status, the link status), \<open>answer_string\<close> the strings, \<open>answer_mesh\<close> the
  address and the contents of a mesh that \<open>gl_create_mesh\<close> allocates. Only the
  framebuffer binding is kept as driver state: \<open>glBindFramebuffer\<close> sets it and
  \<open>glGetIntegerv(GL_FRAMEBUFFER_BINDING)\<close> returns it.
\<close>

record ('f, 'm, 'l) driver =
  answer :: "('f, 'm, 'l) event list \<Rightarrow> 32 word"
  answer_string :: "('f, 'm, 'l) event list \<Rightarrow> string"
  answer_mesh :: "('f, 'm, 'l) event list \<Rightarrow> mesh_ptr \<times> Mesh"

text \<open>
  What \<^verbatim>\<open>graphics.c\<close> takes from the headers of the repository: the matrix library
  (\<^verbatim>\<open>vec_math.h\<close>), the two tables of \<^verbatim>\<open>gl_helper.h\<close>, and the arithmetic of \<^verbatim>\<open>float\<close>
  (\<open>float_literal\<close> is the value of a decimal literal such as \<^verbatim>\<open>0.2f\<close>, \<open>float_of_int\<close> the
  conversion of an \<^verbatim>\<open>int\<close>, \<open>float_div\<close> the division), and the values of \<^verbatim>\<open>Mat4\<close>,
  \<^verbatim>\<open>Transform\<close> and \<^verbatim>\<open>Light\<close> whose bytes are all zero, as \<^verbatim>\<open>calloc\<close> leaves them.
\<close>

record ('f, 'm, 't, 'l) headers =
  kPiDiv2 :: 'f
  float_literal :: "rat \<Rightarrow> 'f"
  float_of_int :: "int \<Rightarrow> 'f"
  float_div :: "'f \<Rightarrow> 'f \<Rightarrow> 'f"
  mat4_perspective_fov :: "'f \<Rightarrow> 'f \<Rightarrow> 'f \<Rightarrow> 'f \<Rightarrow> 'm"
  mat4_inverse :: "'m \<Rightarrow> 'm"
  transform_get_matrix :: "'t \<Rightarrow> 'm"
  transform_zero :: 't
  zero_Mat4 :: 'm
  zero_Transform :: 't
  zero_Light :: 'l
  kAttributeSlotNames :: "AttributeSlot \<Rightarrow> string"
  kVertexDescriptions :: "VertexDescription list list"

datatype fault =
    AssertionFailed
  | IndexOutOfBounds int
  | InvalidPointer nat
  | BufferOverrun nat

text \<open>A run either returns a value or stops with a fault, in the state it had reached.\<close>

datatype ('a, 's) result = Ok 'a | Abort fault 's

text \<open>
  \<open>call\<close> records a call; a \<open>glBindFramebuffer\<close> also changes the driver's binding.
\<close>

fun call :: "('f, 'm, 'l) event \<Rightarrow> ('f, 'm, 'l) world \<Rightarrow> ('f, 'm, 'l) world" where
  "call (glBindFramebuffer target fb) w =
     w\<lparr>trace := trace w @ [glBindFramebuffer target fb], framebuffer_binding := fb\<rparr>"
| "call e w = w\<lparr>trace := trace w @ [e]\<rparr>"

text \<open>A straight-line run of calls, in the order written.\<close>

fun calls :: "('f, 'm, 'l) event list \<Rightarrow> ('f, 'm, 'l) world \<Rightarrow> ('f, 'm, 'l) world" where
  "calls [] w = w"
| "calls (e # es) w = calls es (call e w)"

subsection \<open>The render queue\<close>

text \<open>
  \<^verbatim>\<open>add_render_command\<close>: the counter is read and incremented
  (\<^verbatim>\<open>int index = graphics->num_commands++\<close>), then the assertion is evaluated, then the
  three fields of \<^verbatim>\<open>commands[index]\<close> are stored, which overwrites the whole slot.
  \<open>ndebug\<close> says whether the file was compiled with \<^verbatim>\<open>NDEBUG\<close>, where \<^verbatim>\<open>assert\<close> expands
  to nothing; the store then goes ahead, and a store outside the array is a fault.
\<close>

definition add_render_command ::
  "bool \<Rightarrow> ('m, 't, 'l) Graphics \<Rightarrow> mesh_ptr \<Rightarrow> texture_ptr \<Rightarrow> 't
     \<Rightarrow> (('m, 't, 'l) Graphics, ('m, 't, 'l) Graphics) result" where
  "add_render_command ndebug graphics a_mesh a_diffuse a_transform =
     (let index = num_commands graphics;
          graphics = graphics\<lparr>num_commands := num_commands graphics + 1\<rparr>
      in if \<not> ndebug \<and> \<not> index < MAX_RENDER_COMMANDS then Abort AssertionFailed graphics
         else if index < 0 \<or> int (length (commands graphics)) \<le> index
           then Abort (IndexOutOfBounds index) graphics
         else Ok (graphics\<lparr>commands := (commands graphics)
                    [nat index := \<lparr>transform = a_transform, mesh = a_mesh, diffuse = a_diffuse\<rparr>]\<rparr>))"

definition add_directional_light ::
  "bool \<Rightarrow> ('m, 't, 'l) Graphics \<Rightarrow> 'l
     \<Rightarrow> (('m, 't, 'l) Graphics, ('m, 't, 'l) Graphics) result" where
  "add_directional_light ndebug graphics light =
     (let index = num_lights graphics;
          graphics = graphics\<lparr>num_lights := num_lights graphics + 1\<rparr>
      in if \<not> ndebug \<and> \<not> index < MAX_LIGHTS then Abort AssertionFailed graphics
         else if index < 0 \<or> int (length (lights graphics)) \<le> index
           then Abort (IndexOutOfBounds index) graphics
         else Ok (graphics\<lparr>lights := (lights graphics)[nat index := light]\<rparr>))"

definition set_view_transform ::
  "('m, 't, 'l) Graphics \<Rightarrow> 't \<Rightarrow> ('m, 't, 'l) Graphics" where
  "set_view_transform graphics view = graphics\<lparr>view_transform := view\<rparr>"

subsection \<open>Drawing\<close>

text \<open>
  The \<^verbatim>\<open>do ... while((++desc)->count)\<close> loop of \<^verbatim>\<open>_draw_mesh\<close>. The list is the layout
  array from the entry \<^verbatim>\<open>desc\<close> points to up to the end of the array. The body runs on
  the first entry without a test; then \<^verbatim>\<open>desc\<close> moves on and the loop goes on while the
  entry it now points to has a count other than 0. Reading an entry beyond the array is a
  fault. \<^verbatim>\<open>sizeof(float)\<close> is 4.
\<close>

fun vertex_attrib_pointers ::
  "Mesh \<Rightarrow> VertexDescription list \<Rightarrow> int \<Rightarrow> nat \<Rightarrow> ('f, 'm, 'l) world
     \<Rightarrow> (('f, 'm, 'l) world, ('f, 'm, 'l) world) result" where
  "vertex_attrib_pointers m [] ptr k w = Abort (IndexOutOfBounds (int k)) w"
| "vertex_attrib_pointers m (desc # rest) ptr k w =
     (let w = call (glVertexAttribPointer (slot desc) (count desc) GL_FLOAT GL_FALSE
                      (vertex_size m) ptr) w;
          ptr = ptr + 4 * count desc
      in case rest of
           [] \<Rightarrow> Abort (IndexOutOfBounds (int (Suc k))) w
         | next_desc # _ \<Rightarrow>
             if count next_desc \<noteq> 0 then vertex_attrib_pointers m rest ptr (Suc k) w
             else Ok w)"

definition draw_mesh ::
  "('f, 'm, 't, 'l) headers \<Rightarrow> mesh_ptr \<Rightarrow> ('f, 'm, 'l) world
     \<Rightarrow> (('f, 'm, 'l) world, ('f, 'm, 'l) world) result" where
  "draw_mesh h p w =
     (case mesh_heap w p of
        None \<Rightarrow> Abort (InvalidPointer p) w
      | Some m \<Rightarrow>
          if length (kVertexDescriptions h) \<le> type m
            then Abort (IndexOutOfBounds (int (type m))) w
          else
            let desc = kVertexDescriptions h ! type m;
                ptr = 0;
                w = calls [glBindBuffer GL_ARRAY_BUFFER (vertex_buffer m),
                           glBindBuffer GL_ELEMENT_ARRAY_BUFFER (index_buffer m)] w
            in case vertex_attrib_pointers m desc ptr 0 w of
                 Abort f s \<Rightarrow> Abort f s
               | Ok w \<Rightarrow>
                   Ok (call (glDrawElements GL_TRIANGLES (index_count m) (index_format m)) w))"

subsection \<open>Rendering a frame\<close>

text \<open>
  The loop over the render commands, from index \<open>ii\<close> on:
  \<^verbatim>\<open>for(ii=0;ii<graphics->num_commands;++ii)\<close>.
\<close>

function render_commands ::
  "('f, 'm, 't, 'l) headers \<Rightarrow> ('m, 't, 'l) Graphics \<Rightarrow> int \<Rightarrow> ('f, 'm, 'l) world
     \<Rightarrow> (('f, 'm, 'l) world, ('f, 'm, 'l) world) result" where
  "render_commands h graphics ii w =
     (if ii < num_commands graphics then
        (if ii < 0 \<or> int (length (commands graphics)) \<le> ii
           then Abort (IndexOutOfBounds ii) w
         else
           let command = commands graphics ! nat ii;
               model = transform_get_matrix h (transform command);
               w = call (glUniformMatrix4fv (world_uniform graphics) 1 GL_FALSE model) w
           in case texture_heap w (diffuse command) of
                None \<Rightarrow> Abort (InvalidPointer (diffuse command)) w
              | Some tex \<Rightarrow>
                  (case draw_mesh h (mesh command)
                          (call (glBindTexture GL_TEXTURE_2D (texture tex)) w) of
                     Abort f s \<Rightarrow> Abort f s
                   | Ok w \<Rightarrow> render_commands h graphics (ii + 1) w))
      else Ok w)"
  by pat_completeness auto
termination
  by (relation "measure (\<lambda>(h, graphics, ii, w). nat (num_commands graphics - ii))") auto

definition render_graphics ::
  "('f, 'm, 't, 'l) headers \<Rightarrow> ('m, 't, 'l) Graphics \<Rightarrow> ('f, 'm, 'l) world
     \<Rightarrow> (('m, 't, 'l) Graphics \<times> ('f, 'm, 'l) world,
         ('m, 't, 'l) Graphics \<times> ('f, 'm, 'l) world) result" where
  "render_graphics h graphics w =
     (let view_matrix = mat4_inverse h (transform_get_matrix h (view_transform graphics));
          defaultFBO = framebuffer_binding w;
          w = calls
            [glGetIntegerv GL_FRAMEBUFFER_BINDING,
             glBindFramebuffer GL_FRAMEBUFFER (framebuffer graphics),
             glClearColor (float_literal h 0) (float_literal h (2 / 10))
               (float_literal h (4 / 10)) (float_literal h 1),
             glClear (GL_COLOR_BUFFER_BIT OR GL_DEPTH_BUFFER_BIT),
             CheckGLError,
             glUseProgram (program graphics),
             glEnableVertexAttribArray kPositionSlot,
             glEnableVertexAttribArray kNormalSlot,
             glEnableVertexAttribArray kTexCoordSlot,
             CheckGLError,
             glUniformMatrix4fv (projection_uniform graphics) 1 GL_FALSE
               (projection_matrix graphics),
             glUniformMatrix4fv (view_uniform graphics) 1 GL_FALSE view_matrix,
             glUniform3fv (lights_uniform graphics) (num_lights graphics) (lights graphics),
             glUniform1i (num_lights_uniform graphics) (num_lights graphics),
             glActiveTexture GL_TEXTURE0,
             glUniform1i (diffuse_uniform graphics) 0] w
      in case render_commands h graphics 0 w of
           Abort f s \<Rightarrow> Abort f (graphics, s)
         | Ok w \<Rightarrow>
             let graphics = graphics\<lparr>num_commands := 0, num_lights := 0\<rparr>;
                 w = calls
                   [CheckGLError,
                    glBindFramebuffer GL_FRAMEBUFFER defaultFBO,
                    glClearColor (float_literal h 1) (float_literal h 0)
                      (float_literal h 1) (float_literal h 1),
                    glClear (GL_COLOR_BUFFER_BIT OR GL_DEPTH_BUFFER_BIT),
                    glUseProgram (fullscreen_program graphics),
                    glEnableVertexAttribArray kPositionSlot,
                    glEnableVertexAttribArray kTexCoordSlot,
                    glActiveTexture GL_TEXTURE0,
                    glBindTexture GL_TEXTURE_2D (color_renderbuffer graphics),
                    glUniform1i (fullscreen_texture_uniform graphics) 0,
                    CheckGLError] w
             in case draw_mesh h (quad_mesh graphics) w of
                  Abort f s \<Rightarrow> Abort f (graphics, s)
                | Ok w \<Rightarrow>
                    Ok (graphics, calls [glBindTexture GL_TEXTURE_2D 0, CheckGLError] w))"

subsection \<open>Construction\<close>

text \<open>
  The \<^verbatim>\<open>switch\<close> of \<^verbatim>\<open>_setup_framebuffer\<close>: the format string that is logged for a
  framebuffer status, if any. Every message is logged with the framebuffer name as its
  argument.
\<close>

definition framebuffer_status_message :: "GLenum \<Rightarrow> string option" where
  "framebuffer_status_message framebuffer_status =
     (if framebuffer_status = GL_FRAMEBUFFER_COMPLETE then None
      else if framebuffer_status = GL_FRAMEBUFFER_INCOMPLETE_ATTACHMENT
        then Some ''Framebuffer Object %d Error: Attachment Point Unconnected''
      else if framebuffer_status = GL_FRAMEBUFFER_INCOMPLETE_MISSING_ATTACHMENT
        then Some ''Framebuffer Object %d Error: Missing Attachment''
      else if framebuffer_status = GL_FRAMEBUFFER_INCOMPLETE_DIMENSIONS
        then Some ''Framebuffer Object %d Error: Dimensions do not match''
      else if framebuffer_status = GL_FRAMEBUFFER_UNSUPPORTED
        then Some ''Framebuffer Object %d Error: Unsupported Framebuffer Configuration''
      else Some ''Framebuffer Object %d Error: Unkown Framebuffer Object Failure'')"

text \<open>
  \<^verbatim>\<open>_setup_framebuffer\<close>. It has no assertion and no early return: it always hands the
  structure back to \<^verbatim>\<open>create_graphics\<close>.
\<close>

definition setup_framebuffer ::
  "('f, 'm, 'l) driver \<Rightarrow> ('m, 't, 'l) Graphics \<Rightarrow> ('f, 'm, 'l) world
     \<Rightarrow> ('m, 't, 'l) Graphics \<times> ('f, 'm, 'l) world" where
  "setup_framebuffer drv graphics w =
     (let w = call (glGenTextures 1) w;
          graphics = graphics\<lparr>color_renderbuffer := answer drv (trace w)\<rparr>;
          w = calls
            [glBindTexture GL_TEXTURE_2D (color_renderbuffer graphics),
             glTexParameteri GL_TEXTURE_2D GL_TEXTURE_MAG_FILTER GL_NEAREST,
             glTexParameteri GL_TEXTURE_2D GL_TEXTURE_MIN_FILTER GL_NEAREST,
             glTexParameteri GL_TEXTURE_2D GL_TEXTURE_WRAP_S GL_CLAMP_TO_EDGE,
             glTexParameteri GL_TEXTURE_2D GL_TEXTURE_WRAP_T GL_CLAMP_TO_EDGE,
             glTexImage2D GL_TEXTURE_2D 0 GL_RGBA (width graphics) (height graphics) 0
               GL_RGBA GL_UNSIGNED_BYTE,
             CheckGLError] w;
          w = call (glGenTextures 1) w;
          graphics = graphics\<lparr>depth_renderbuffer := answer drv (trace w)\<rparr>;
          w = calls
            [glBindTexture GL_TEXTURE_2D (depth_renderbuffer graphics),
             glTexParameteri GL_TEXTURE_2D GL_TEXTURE_MAG_FILTER GL_NEAREST,
             glTexParameteri GL_TEXTURE_2D GL_TEXTURE_MIN_FILTER GL_NEAREST,
             glTexParameteri GL_TEXTURE_2D GL_TEXTURE_WRAP_S GL_CLAMP_TO_EDGE,
             glTexParameteri GL_TEXTURE_2D GL_TEXTURE_WRAP_T GL_CLAMP_TO_EDGE,
             glTexImage2D GL_TEXTURE_2D 0 GL_DEPTH_COMPONENT (width graphics) (height graphics) 0
               GL_DEPTH_COMPONENT GL_UNSIGNED_INT,
             CheckGLError] w;
          w = call (glGenFramebuffers 1) w;
          graphics = graphics\<lparr>framebuffer := answer drv (trace w)\<rparr>;
          w = calls
            [glBindFramebuffer GL_FRAMEBUFFER (framebuffer graphics),
             glFramebufferTexture2D GL_FRAMEBUFFER GL_COLOR_ATTACHMENT0 GL_TEXTURE_2D
               (color_renderbuffer graphics) 0,
             glFramebufferTexture2D GL_FRAMEBUFFER GL_DEPTH_ATTACHMENT GL_TEXTURE_2D
               (depth_renderbuffer graphics) 0] w;
          w = call (glCheckFramebufferStatus GL_FRAMEBUFFER) w;
          framebuffer_status = answer drv (trace w);
          w = (case framebuffer_status_message framebuffer_status of
                 None \<Rightarrow> w
               | Some message \<Rightarrow> call (system_log message [UIntArg (framebuffer graphics)]) w);
          w = calls
            [glBindFramebuffer GL_FRAMEBUFFER 0,
             glBindTexture GL_TEXTURE_2D 0,
             CheckGLError,
             system_log ''Created framebuffer\<newline>'' []] w
      in (graphics, w))"

text \<open>
  The loop of \<^verbatim>\<open>_create_program\<close> over the attribute slots, from index \<open>ii\<close> on:
  \<^verbatim>\<open>for(ii=0;ii<num_attributes;++ii)\<close>.
\<close>

function bind_attrib_locations ::
  "('f, 'm, 't, 'l) headers \<Rightarrow> GLuint \<Rightarrow> AttributeSlot list \<Rightarrow> int \<Rightarrow> int
     \<Rightarrow> ('f, 'm, 'l) world \<Rightarrow> (('f, 'm, 'l) world, ('f, 'm, 'l) world) result" where
  "bind_attrib_locations h prog attribute_slots num_attributes ii w =
     (if ii < num_attributes then
        (if ii < 0 \<or> int (length attribute_slots) \<le> ii then Abort (IndexOutOfBounds ii) w
         else
           bind_attrib_locations h prog attribute_slots num_attributes (ii + 1)
             (call (glBindAttribLocation prog (attribute_slots ! nat ii)
                      (kAttributeSlotNames h (attribute_slots ! nat ii))) w))
      else Ok w)"
  by pat_completeness auto
termination
  by (relation "measure (\<lambda>(h, prog, attribute_slots, num_attributes, ii, w).
        nat (num_attributes - ii))") auto

text \<open>
  \<^verbatim>\<open>_create_program\<close>. \<^verbatim>\<open>glGetProgramInfoLog\<close> fills a buffer of 1024 bytes, so at most
  1023 characters of the linker's message. The assertion sits inside the branch where
  \<^verbatim>\<open>link_status == GL_FALSE\<close>.
\<close>

definition create_program ::
  "bool \<Rightarrow> ('f, 'm, 'l) driver \<Rightarrow> ('f, 'm, 't, 'l) headers \<Rightarrow> string \<Rightarrow> string
     \<Rightarrow> AttributeSlot list \<Rightarrow> int \<Rightarrow> ('f, 'm, 'l) world
     \<Rightarrow> (GLuint \<times> ('f, 'm, 'l) world, ('f, 'm, 'l) world) result" where
  "create_program ndebug drv h vertex_shader_file fragment_shader_file attribute_slots
       num_attributes w =
     (let w = call (gl_load_shader vertex_shader_file GL_VERTEX_SHADER) w;
          vertex_shader = answer drv (trace w);
          w = call (gl_load_shader fragment_shader_file GL_FRAGMENT_SHADER) w;
          fragment_shader = answer drv (trace w);
          w = call glCreateProgram w;
          prog = answer drv (trace w);
          w = calls [glAttachShader prog vertex_shader, glAttachShader prog fragment_shader] w
      in case bind_attrib_locations h prog attribute_slots num_attributes 0 w of
           Abort f s \<Rightarrow> Abort f s
         | Ok w \<Rightarrow>
             let w = calls [glLinkProgram prog, glGetProgramiv prog GL_LINK_STATUS] w;
                 link_status = answer drv (trace w);
                 finish = (\<lambda>w. Ok (prog, calls
                   [glDetachShader prog fragment_shader,
                    glDetachShader prog vertex_shader,
                    glDeleteShader fragment_shader,
                    glDeleteShader vertex_shader,
                    CheckGLError] w))
             in if link_status = GL_FALSE then
                  let w = call (glGetProgramInfoLog prog 1024) w;
                      message = take 1023 (answer_string drv (trace w));
                      w = call (system_log message []) w
                  in if \<not> ndebug \<and> \<not> link_status \<noteq> GL_FALSE then Abort AssertionFailed w
                     else finish w
                else finish w)"

definition setup_programs ::
  "bool \<Rightarrow> ('f, 'm, 'l) driver \<Rightarrow> ('f, 'm, 't, 'l) headers \<Rightarrow> ('m, 't, 'l) Graphics
     \<Rightarrow> ('f, 'm, 'l) world
     \<Rightarrow> (('m, 't, 'l) Graphics \<times> ('f, 'm, 'l) world,
         ('m, 't, 'l) Graphics \<times> ('f, 'm, 'l) world) result" where
  "setup_programs ndebug drv h graphics w =
     (case create_program ndebug drv h ''SimpleVertex.glsl'' ''SimpleFragment.glsl''
             [kPositionSlot, kNormalSlot, kTexCoordSlot] 3 w of
        Abort f s \<Rightarrow> Abort f (graphics, s)
      | Ok (prog, w) \<Rightarrow>
          let graphics = graphics\<lparr>program := prog\<rparr>;
              w = call (glGetUniformLocation (program graphics) ''Projection'') w;
              graphics = graphics\<lparr>projection_uniform := answer drv (trace w)\<rparr>;
              w = call (glGetUniformLocation (program graphics) ''View'') w;
              graphics = graphics\<lparr>view_uniform := answer drv (trace w)\<rparr>;
              w = call (glGetUniformLocation (program graphics) ''World'') w;
              graphics = graphics\<lparr>world_uniform := answer drv (trace w)\<rparr>;
              w = call (glGetUniformLocation (program graphics) ''s_Diffuse'') w;
              graphics = graphics\<lparr>diffuse_uniform := answer drv (trace w)\<rparr>;
              w = call (glGetUniformLocation (program graphics) ''Lights[0].direction'') w;
              graphics = graphics\<lparr>lights_uniform := answer drv (trace w)\<rparr>;
              w = call (glGetUniformLocation (program graphics) ''NumLights'') w;
              graphics = graphics\<lparr>num_lights_uniform := answer drv (trace w)\<rparr>;
              w = call (system_log ''Created program\<newline>'' []) w
          in case create_program ndebug drv h ''fullscreen_vertex.glsl''
                    ''fullscreen_fragment.glsl'' [kPositionSlot, kTexCoordSlot] 2 w of
               Abort f s \<Rightarrow> Abort f (graphics, s)
             | Ok (prog, w) \<Rightarrow>
                 let graphics = graphics\<lparr>fullscreen_program := prog\<rparr>;
                     w = call (glGetUniformLocation (fullscreen_program graphics)
                                 ''s_Diffuse'') w;
                     graphics = graphics\<lparr>fullscreen_texture_uniform := answer drv (trace w)\<rparr>;
                     w = calls [system_log ''Created fullscreen program\<newline>'' [],
                                CheckGLError] w
                 in Ok (graphics, w))"

text \<open>
  The loop that prints the extensions, from index \<open>ii\<close> on: every space of the buffer
  becomes a newline.
\<close>

function spaces_to_newlines :: "string \<Rightarrow> nat \<Rightarrow> string" where
  "spaces_to_newlines buffer ii =
     (if ii < length buffer then
        spaces_to_newlines
          (if buffer ! ii = CHR '' '' then buffer[ii := CHR ''\<newline>''] else buffer) (Suc ii)
      else buffer)"
  by pat_completeness auto
termination
  by (relation "measure (\<lambda>(buffer, ii). length buffer - ii)") auto

text \<open>
  \<^verbatim>\<open>create_graphics\<close>. \<^verbatim>\<open>calloc\<close> returns the structure with every byte zero (the model
  takes the allocation to succeed). \<^verbatim>\<open>gl_create_mesh\<close> allocates a mesh: the heap gets
  the object at the address the helper returns. \<^verbatim>\<open>strcpy\<close> copies the extension string
  and its terminator into a buffer of \<open>1024 * 16\<close> bytes; a longer string overruns it.
\<close>

definition create_graphics ::
  "bool \<Rightarrow> ('f, 'm, 'l) driver \<Rightarrow> ('f, 'm, 't, 'l) headers \<Rightarrow> int \<Rightarrow> int
     \<Rightarrow> ('f, 'm, 'l) world
     \<Rightarrow> (('m, 't, 'l) Graphics \<times> ('f, 'm, 'l) world,
         ('m, 't, 'l) Graphics \<times> ('f, 'm, 'l) world) result" where
  "create_graphics ndebug drv h a_width a_height w =
     (let graphics =
            \<lparr>program = 0, projection_uniform = 0, view_uniform = 0, world_uniform = 0,
             diffuse_uniform = 0, lights_uniform = 0, num_lights_uniform = 0,
             color_renderbuffer = 0, depth_renderbuffer = 0, depth_texture = 0,
             framebuffer = 0, width = 0, height = 0,
             projection_matrix = zero_Mat4 h, view_transform = zero_Transform h,
             fullscreen_program = 0, fullscreen_texture_uniform = 0,
             cube_mesh = 0, quad_mesh = 0,
             commands = replicate (nat MAX_RENDER_COMMANDS)
               \<lparr>transform = zero_Transform h, mesh = 0, diffuse = 0\<rparr>,
             num_commands = 0,
             lights = replicate (nat MAX_LIGHTS) (zero_Light h),
             num_lights = 0\<rparr>;
          graphics = graphics\<lparr>width := a_width\<rparr>;
          graphics = graphics\<lparr>height := a_height\<rparr>;
          w = calls
            [system_log ''Graphics created. W: %d  H: %d\<newline>'' [IntArg a_width, IntArg a_height],
             glEnable GL_DEPTH_TEST,
             glEnable GL_CULL_FACE,
             glFrontFace GL_CW,
             glViewport 0 0 a_width a_height,
             glClearColor (float_literal h 0) (float_literal h (2 / 10))
               (float_literal h (4 / 10)) (float_literal h 1),
             glClearDepthf (float_literal h 1)] w;
          w = call (glGetString GL_VERSION) w;
          w = call (system_log (''OpenGL version:'' @ [CHR 0x09] @ ''%s\<newline>'')
                      [StrArg (answer_string drv (trace w))]) w;
          w = call (glGetString GL_RENDERER) w;
          w = call (system_log (''OpenGL renderer:'' @ [CHR 0x09] @ ''%s\<newline>'')
                      [StrArg (answer_string drv (trace w))]) w;
          (graphics, w) = setup_framebuffer drv graphics w
      in case setup_programs ndebug drv h graphics w of
           Abort f s \<Rightarrow> Abort f s
         | Ok (graphics, w) \<Rightarrow>
             let graphics = graphics\<lparr>projection_matrix :=
                   mat4_perspective_fov h (kPiDiv2 h)
                     (float_div h (float_of_int h a_width) (float_of_int h a_height))
                     (float_literal h (1 / 10)) (float_literal h 1000)\<rparr>;
                 graphics = graphics\<lparr>view_transform := transform_zero h\<rparr>;
                 w = call (gl_create_mesh CubeGeometry) w;
                 (p, m) = answer_mesh drv (trace w);
                 w = w\<lparr>mesh_heap := (mesh_heap w)(p \<mapsto> m)\<rparr>;
                 graphics = graphics\<lparr>cube_mesh := p\<rparr>;
                 w = call (gl_create_mesh QuadGeometry) w;
                 (p, m) = answer_mesh drv (trace w);
                 w = w\<lparr>mesh_heap := (mesh_heap w)(p \<mapsto> m)\<rparr>;
                 graphics = graphics\<lparr>quad_mesh := p\<rparr>;
                 w = calls [CheckGLError, system_log ''Graphics initialized\<newline>'' []] w;
                 w = call (glGetString GL_EXTENSIONS) w;
                 extensions = answer_string drv (trace w)
             in if 1024 * 16 \<le> length extensions
                  then Abort (BufferOverrun (length extensions + 1)) (graphics, w)
                else
                  let buffer = spaces_to_newlines extensions 0;
                      w = call (system_log ''%s\<newline>'' [StrArg buffer]) w
                  in Ok (graphics, w))"

subsection \<open>Callers\<close>

text \<open>
  A caller drives the frame interface one call after the other, on the same structure and
  the same world; a fault ends the run where it happens.
\<close>

datatype ('t, 'l) api_call =
    AddRenderCommand mesh_ptr texture_ptr 't
  | AddDirectionalLight 'l
  | SetViewTransform 't
  | RenderGraphics

fun api_step ::
  "bool \<Rightarrow> ('f, 'm, 't, 'l) headers \<Rightarrow> ('t, 'l) api_call
     \<Rightarrow> ('m, 't, 'l) Graphics \<times> ('f, 'm, 'l) world
     \<Rightarrow> (('m, 't, 'l) Graphics \<times> ('f, 'm, 'l) world,
         ('m, 't, 'l) Graphics \<times> ('f, 'm, 'l) world) result" where
  "api_step ndebug h (AddRenderCommand a_mesh a_diffuse a_transform) (g, w) =
     (case add_render_command ndebug g a_mesh a_diffuse a_transform of
        Ok g' \<Rightarrow> Ok (g', w)
      | Abort f g' \<Rightarrow> Abort f (g', w))"
| "api_step ndebug h (AddDirectionalLight light) (g, w) =
     (case add_directional_light ndebug g light of
        Ok g' \<Rightarrow> Ok (g', w)
      | Abort f g' \<Rightarrow> Abort f (g', w))"
| "api_step ndebug h (SetViewTransform view) (g, w) = Ok (set_view_transform g view, w)"
| "api_step ndebug h RenderGraphics (g, w) = render_graphics h g w"

fun api_run ::
  "bool \<Rightarrow> ('f, 'm, 't, 'l) headers \<Rightarrow> ('t, 'l) api_call list
     \<Rightarrow> ('m, 't, 'l) Graphics \<times> ('f, 'm, 'l) world
     \<Rightarrow> (('m, 't, 'l) Graphics \<times> ('f, 'm, 'l) world,
         ('m, 't, 'l) Graphics \<times> ('f, 'm, 'l) world) result" where
  "api_run ndebug h [] s = Ok s"
| "api_run ndebug h (c # cs) s =
     (case api_step ndebug h c s of
        Ok s' \<Rightarrow> api_run ndebug h cs s'
      | Abort f s' \<Rightarrow> Abort f s')"

text \<open>The state a run ends in, whether it returned or stopped.\<close>

fun state_of :: "('s, 's) result \<Rightarrow> 's" where
  "state_of (Ok s) = s"
| "state_of (Abort f s) = s"

text \<open>The draw commands and the lights that a list of calls submits, in the order of the calls.\<close>

fun submitted_commands :: "('t, 'l) api_call list \<Rightarrow> 't RenderCommand list" where
  "submitted_commands [] = []"
| "submitted_commands (AddRenderCommand a_mesh a_diffuse a_transform # cs) =
     \<lparr>transform = a_transform, mesh = a_mesh, diffuse = a_diffuse\<rparr> # submitted_commands cs"
| "submitted_commands (c # cs) = submitted_commands cs"

fun submitted_lights :: "('t, 'l) api_call list \<Rightarrow> 'l list" where
  "submitted_lights [] = []"
| "submitted_lights (AddDirectionalLight light # cs) = light # submitted_lights cs"
| "submitted_lights (c # cs) = submitted_lights cs"

fun is_submission :: "('t, 'l) api_call \<Rightarrow> bool" where
  "is_submission (AddRenderCommand a_mesh a_diffuse a_transform) = True"
| "is_submission (AddDirectionalLight light) = True"
| "is_submission c = False"

fun is_set_view :: "('t, 'l) api_call \<Rightarrow> bool" where
  "is_set_view (SetViewTransform view) = True"
| "is_set_view c = False"

fun is_render :: "('t, 'l) api_call \<Rightarrow> bool" where
  "is_render RenderGraphics = True"
| "is_render c = False"

subsection \<open>Well-formed structures and readable traces\<close>

text \<open>
  What holds of every structure that \<^verbatim>\<open>create_graphics\<close> returns and that the frame
  interface keeps: the arrays have their declared sizes and the counters stay between 0
  and the capacity.
\<close>

definition graphics_inv :: "('m, 't, 'l) Graphics \<Rightarrow> bool" where
  "graphics_inv g \<longleftrightarrow>
     int (length (commands g)) = MAX_RENDER_COMMANDS \<and>
     int (length (lights g)) = MAX_LIGHTS \<and>
     0 \<le> num_commands g \<and> num_commands g \<le> MAX_RENDER_COMMANDS \<and>
     0 \<le> num_lights g \<and> num_lights g \<le> MAX_LIGHTS"

text \<open>The queues: the first \<open>num_commands\<close> slots and the first \<open>num_lights\<close> slots.\<close>

definition queued_commands :: "('m, 't, 'l) Graphics \<Rightarrow> 't RenderCommand list" where
  "queued_commands g = take (nat (num_commands g)) (commands g)"

definition queued_lights :: "('m, 't, 'l) Graphics \<Rightarrow> 'l list" where
  "queued_lights g = take (nat (num_lights g)) (lights g)"

text \<open>
  A layout array on which the loop of \<^verbatim>\<open>_draw_mesh\<close> stops inside the array: it has a
  first entry, and an entry of count 0 after it. \<open>layout_calls\<close> are the calls the loop
  then makes.
\<close>

fun layout_ok :: "VertexDescription list \<Rightarrow> bool" where
  "layout_ok (desc # next_desc # rest) = (count next_desc = 0 \<or> layout_ok (next_desc # rest))"
| "layout_ok ds = False"

fun layout_calls :: "Mesh \<Rightarrow> VertexDescription list \<Rightarrow> int \<Rightarrow> ('f, 'm, 'l) event list" where
  "layout_calls m (desc # next_desc # rest) ptr =
     glVertexAttribPointer (slot desc) (count desc) GL_FLOAT GL_FALSE (vertex_size m) ptr #
     (if count next_desc = 0 then []
      else layout_calls m (next_desc # rest) (ptr + 4 * count desc))"
| "layout_calls m ds ptr = []"

text \<open>
  A mesh pointer that \<^verbatim>\<open>_draw_mesh\<close> can draw: there is a mesh behind it, its type is
  an index of \<^verbatim>\<open>kVertexDescriptions\<close>, and the layout there is well-formed.
  \<open>mesh_calls\<close> are the calls of \<^verbatim>\<open>_draw_mesh\<close> on it: exactly one \<open>glDrawElements\<close>, last.
\<close>

definition mesh_ok :: "('f, 'm, 't, 'l) headers \<Rightarrow> ('f, 'm, 'l) world \<Rightarrow> mesh_ptr \<Rightarrow> bool" where
  "mesh_ok h w p =
     (case mesh_heap w p of
        None \<Rightarrow> False
      | Some m \<Rightarrow> type m < length (kVertexDescriptions h) \<and>
                  layout_ok (kVertexDescriptions h ! type m))"

definition mesh_calls ::
  "('f, 'm, 't, 'l) headers \<Rightarrow> ('f, 'm, 'l) world \<Rightarrow> mesh_ptr \<Rightarrow> ('f, 'm, 'l) event list" where
  "mesh_calls h w p =
     (case mesh_heap w p of
        None \<Rightarrow> []
      | Some m \<Rightarrow>
          [glBindBuffer GL_ARRAY_BUFFER (vertex_buffer m),
           glBindBuffer GL_ELEMENT_ARRAY_BUFFER (index_buffer m)] @
          layout_calls m (kVertexDescriptions h ! type m) 0 @
          [glDrawElements GL_TRIANGLES (index_count m) (index_format m)])"

text \<open>
  A render command that the loop of \<^verbatim>\<open>render_graphics\<close> can execute, and the calls the
  loop makes for it: the world matrix of its transform, its texture, its mesh.
\<close>

definition command_ok ::
  "('f, 'm, 't, 'l) headers \<Rightarrow> ('f, 'm, 'l) world \<Rightarrow> 't RenderCommand \<Rightarrow> bool" where
  "command_ok h w c \<longleftrightarrow> texture_heap w (diffuse c) \<noteq> None \<and> mesh_ok h w (mesh c)"

definition command_calls ::
  "('f, 'm, 't, 'l) headers \<Rightarrow> ('m, 't, 'l) Graphics \<Rightarrow> ('f, 'm, 'l) world
     \<Rightarrow> 't RenderCommand \<Rightarrow> ('f, 'm, 'l) event list" where
  "command_calls h g w c =
     (case texture_heap w (diffuse c) of
        None \<Rightarrow> []
      | Some tex \<Rightarrow>
          [glUniformMatrix4fv (world_uniform g) 1 GL_FALSE
             (transform_get_matrix h (transform c)),
           glBindTexture GL_TEXTURE_2D (texture tex)] @ mesh_calls h w (mesh c))"

text \<open>
  A structure and a world on which \<^verbatim>\<open>render_graphics\<close> runs to its end: the counter is
  within the array, every queued command can be executed, and so can the quad.
\<close>

definition render_ready ::
  "('f, 'm, 't, 'l) headers \<Rightarrow> ('m, 't, 'l) Graphics \<Rightarrow> ('f, 'm, 'l) world \<Rightarrow> bool" where
  "render_ready h g w \<longleftrightarrow>
     num_commands g \<le> int (length (commands g)) \<and>
     list_all (command_ok h w) (queued_commands g) \<and> mesh_ok h w (quad_mesh g)"

text \<open>
  Reading a trace: the kinds of call, and the passes of a frame. A pass starts at a
  \<open>glBindFramebuffer\<close> and holds the calls up to the next one; it is listed with the
  framebuffer it renders to.
\<close>

fun is_glBindFramebuffer :: "('f, 'm, 'l) event \<Rightarrow> bool" where
  "is_glBindFramebuffer (glBindFramebuffer target fb) = True"
| "is_glBindFramebuffer e = False"

fun is_glDrawElements :: "('f, 'm, 'l) event \<Rightarrow> bool" where
  "is_glDrawElements (glDrawElements mode n ty) = True"
| "is_glDrawElements e = False"

fun is_glUniformMatrix4fv :: "('f, 'm, 'l) event \<Rightarrow> bool" where
  "is_glUniformMatrix4fv (glUniformMatrix4fv location n tr v) = True"
| "is_glUniformMatrix4fv e = False"

fun is_glUniform3fv :: "('f, 'm, 'l) event \<Rightarrow> bool" where
  "is_glUniform3fv (glUniform3fv location n v) = True"
| "is_glUniform3fv e = False"

fun is_system_log :: "('f, 'm, 'l) event \<Rightarrow> bool" where
  "is_system_log (system_log fmt args) = True"
| "is_system_log e = False"

fun passes :: "('f, 'm, 'l) event list \<Rightarrow> (GLuint \<times> ('f, 'm, 'l) event list) list" where
  "passes [] = []"
| "passes (glBindFramebuffer target fb # es) =
     (fb, takeWhile (\<lambda>e. \<not> is_glBindFramebuffer e) es) # passes es"
| "passes (e # es) = passes es"

text \<open>The passes of a trace, each with the number of \<open>glDrawElements\<close> calls it holds.\<close>

definition draws_per_pass :: "('f, 'm, 'l) event list \<Rightarrow> (GLuint \<times> nat) list" where
  "draws_per_pass es =
     map (\<lambda>(fb, pass). (fb, length (filter is_glDrawElements pass))) (passes es)"

text \<open>
  The fixed calls of a frame, as \<^verbatim>\<open>render_graphics\<close> makes them: those of the offscreen
  pass between binding the offscreen framebuffer and the first render command, and those
  of the composite pass between binding the restored framebuffer and drawing the quad.
\<close>

definition offscreen_setup ::
  "('f, 'm, 't, 'l) headers \<Rightarrow> ('m, 't, 'l) Graphics \<Rightarrow> ('f, 'm, 'l) event list" where
  "offscreen_setup h g =
     [glClearColor (float_literal h 0) (float_literal h (2 / 10))
        (float_literal h (4 / 10)) (float_literal h 1),
      glClear (GL_COLOR_BUFFER_BIT OR GL_DEPTH_BUFFER_BIT),
      CheckGLError,
      glUseProgram (program g),
      glEnableVertexAttribArray kPositionSlot,
      glEnableVertexAttribArray kNormalSlot,
      glEnableVertexAttribArray kTexCoordSlot,
      CheckGLError,
      glUniformMatrix4fv (projection_uniform g) 1 GL_FALSE (projection_matrix g),
      glUniformMatrix4fv (view_uniform g) 1 GL_FALSE
        (mat4_inverse h (transform_get_matrix h (view_transform g))),
      glUniform3fv (lights_uniform g) (num_lights g) (lights g),
      glUniform1i (num_lights_uniform g) (num_lights g),
      glActiveTexture GL_TEXTURE0,
      glUniform1i (diffuse_uniform g) 0]"

definition composite_setup ::
  "('f, 'm, 't, 'l) headers \<Rightarrow> ('m, 't, 'l) Graphics \<Rightarrow> ('f, 'm, 'l) event list" where
  "composite_setup h g =
     [glClearColor (float_literal h 1) (float_literal h 0)
        (float_literal h 1) (float_literal h 1),
      glClear (GL_COLOR_BUFFER_BIT OR GL_DEPTH_BUFFER_BIT),
      glUseProgram (fullscreen_program g),
      glEnableVertexAttribArray kPositionSlot,
      glEnableVertexAttribArray kTexCoordSlot,
      glActiveTexture GL_TEXTURE0,
      glBindTexture GL_TEXTURE_2D (color_renderbuffer g),
      glUniform1i (fullscreen_texture_uniform g) 0,
      CheckGLError]"

text \<open>The calls of a whole frame that runs to its end, in order.\<close>

definition frame_calls ::
  "('f, 'm, 't, 'l) headers \<Rightarrow> ('m, 't, 'l) Graphics \<Rightarrow> ('f, 'm, 'l) world
     \<Rightarrow> ('f, 'm, 'l) event list" where
  "frame_calls h g w =
     [glGetIntegerv GL_FRAMEBUFFER_BINDING,
      glBindFramebuffer GL_FRAMEBUFFER (framebuffer g)] @
     (offscreen_setup h g @ concat (map (command_calls h g w) (queued_commands g))) @
     [CheckGLError, glBindFramebuffer GL_FRAMEBUFFER (framebuffer_binding w)] @
     (composite_setup h g @ mesh_calls h w (quad_mesh g) @
      [glBindTexture GL_TEXTURE_2D 0, CheckGLError])"

subsection \<open>A concrete setting\<close>

text \<open>
  Concrete headers, a structure, a world and a driver, on which the properties below are
  also run. Matrices and transforms are integers here (the matrix of a transform adds
  100, the inverse negates), floats are rationals, lights are natural numbers. The one
  vertex layout has three attributes and the closing entry. The driver answers \<open>status\<close>
  to \<open>glCheckFramebufferStatus\<close>, \<open>link\<close> to \<open>glGetProgramiv\<close> and 1 to every other
  call; \<open>gl_create_mesh\<close> puts the cube at address 3 and the quad at address 2.
\<close>

definition example_headers :: "(rat, int, int, nat) headers" where
  "example_headers =
     \<lparr>kPiDiv2 = 157 / 100, float_literal = (\<lambda>q. q), float_of_int = of_int,
      float_div = (\<lambda>a b. a / b),
      mat4_perspective_fov = (\<lambda>fov aspect n f. \<lfloor>fov * 1000\<rfloor> + \<lfloor>aspect * 300\<rfloor>),
      mat4_inverse = uminus, transform_get_matrix = (\<lambda>t. t + 100), transform_zero = 0,
      zero_Mat4 = 0, zero_Transform = 0, zero_Light = 0,
      kAttributeSlotNames =
        (\<lambda>s. case s of kPositionSlot \<Rightarrow> ''a_Position'' | kNormalSlot \<Rightarrow> ''a_Normal''
              | kTexCoordSlot \<Rightarrow> ''a_TexCoord''),
      kVertexDescriptions =
        [[\<lparr>slot = kPositionSlot, count = 3\<rparr>, \<lparr>slot = kNormalSlot, count = 3\<rparr>,
          \<lparr>slot = kTexCoordSlot, count = 2\<rparr>, \<lparr>slot = kPositionSlot, count = 0\<rparr>]]\<rparr>"

definition example_cube :: Mesh where
  "example_cube =
     \<lparr>vertex_buffer = 11, index_buffer = 12, index_count = 36, index_format = 0x1403,
      vertex_size = 32, type = 0\<rparr>"

definition example_quad :: Mesh where
  "example_quad =
     \<lparr>vertex_buffer = 13, index_buffer = 14, index_count = 6, index_format = 0x1403,
      vertex_size = 32, type = 0\<rparr>"

definition example_graphics :: "(int, int, nat) Graphics" where
  "example_graphics =
     \<lparr>program = 3, projection_uniform = 0, view_uniform = 1, world_uniform = 2,
      diffuse_uniform = 3, lights_uniform = 4, num_lights_uniform = 5,
      color_renderbuffer = 1, depth_renderbuffer = 2, depth_texture = 0,
      framebuffer = 1, width = 800, height = 600,
      projection_matrix = 1970, view_transform = 0,
      fullscreen_program = 6, fullscreen_texture_uniform = 0,
      cube_mesh = 3, quad_mesh = 2,
      commands = replicate 1024 \<lparr>transform = 0, mesh = 0, diffuse = 0\<rparr>,
      num_commands = 0,
      lights = replicate 64 0,
      num_lights = 0\<rparr>"

definition example_world :: "(rat, int, nat) world" where
  "example_world =
     \<lparr>trace = [], framebuffer_binding = 7,
      mesh_heap = [3 \<mapsto> example_cube, 2 \<mapsto> example_quad],
      texture_heap = [2 \<mapsto> \<lparr>texture = 9\<rparr>, 3 \<mapsto> \<lparr>texture = 10\<rparr>]\<rparr>"

definition example_driver :: "GLenum \<Rightarrow> GLint \<Rightarrow> (rat, int, nat) driver" where
  "example_driver status link =
     \<lparr>answer = (\<lambda>tr. case last tr of
                        glCheckFramebufferStatus target \<Rightarrow> status
                      | glGetProgramiv prog pname \<Rightarrow> link
                      | _ \<Rightarrow> 1),
      answer_string = (\<lambda>tr. case last tr of
                        glGetProgramInfoLog prog n \<Rightarrow> ''error: varying not written''
                      | _ \<Rightarrow> ''GL_OES_depth24 GL_OES_rgb8_rgba8''),
      answer_mesh = (\<lambda>tr. case last tr of
                        gl_create_mesh CubeGeometry \<Rightarrow> (3, example_cube)
                      | _ \<Rightarrow> (2, example_quad))\<rparr>"

section \<open>Properties\<close>

subsection \<open>Calls and traces\<close>

lemma call_eq:
  "call e w = w\<lparr>trace := trace w @ [e],
     framebuffer_binding :=
       (case e of glBindFramebuffer target fb \<Rightarrow> fb | _ \<Rightarrow> framebuffer_binding w)\<rparr>"
  by (cases e) simp_all

declare call.simps [simp del]
declare render_commands.simps [simp del]
declare bind_attrib_locations.simps [simp del]
declare spaces_to_newlines.simps [simp del]

lemma mesh_heap_call [simp]: "mesh_heap (call e w) = mesh_heap w"
  by (simp add: call_eq)

lemma texture_heap_call [simp]: "texture_heap (call e w) = texture_heap w"
  by (simp add: call_eq)

lemma trace_call [simp]: "trace (call e w) = trace w @ [e]"
  by (simp add: call_eq)

lemma mesh_heap_calls [simp]: "mesh_heap (calls es w) = mesh_heap w"
  by (induction es arbitrary: w) simp_all

lemma texture_heap_calls [simp]: "texture_heap (calls es w) = texture_heap w"
  by (induction es arbitrary: w) simp_all

lemma trace_calls [simp]: "trace (calls es w) = trace w @ es"
  by (induction es arbitrary: w) simp_all

lemma calls_append: "calls (es @ fs) w = calls fs (calls es w)"
  by (induction es arbitrary: w) simp_all

lemma mesh_ok_call [simp]: "mesh_ok h (call e w) p = mesh_ok h w p"
  by (simp add: mesh_ok_def)

lemma mesh_ok_calls [simp]: "mesh_ok h (calls es w) p = mesh_ok h w p"
  by (simp add: mesh_ok_def)

lemma mesh_calls_call [simp]: "mesh_calls h (call e w) p = mesh_calls h w p"
  by (simp add: mesh_calls_def)

lemma mesh_calls_calls [simp]: "mesh_calls h (calls es w) p = mesh_calls h w p"
  by (simp add: mesh_calls_def)

lemma command_ok_call [simp]: "command_ok h (call e w) = command_ok h w"
  by (rule ext) (simp add: command_ok_def)

lemma command_ok_calls [simp]: "command_ok h (calls es w) = command_ok h w"
  by (rule ext) (simp add: command_ok_def)

lemma command_calls_call [simp]: "command_calls h g (call e w) = command_calls h g w"
  by (rule ext) (simp add: command_calls_def split: option.splits)

lemma command_calls_calls [simp]: "command_calls h g (calls es w) = command_calls h g w"
  by (rule ext) (simp add: command_calls_def split: option.splits)

subsection \<open>The loops of a frame\<close>

lemma vertex_attrib_pointers_ok:
  "layout_ok ds \<Longrightarrow> vertex_attrib_pointers m ds ptr k w = Ok (calls (layout_calls m ds ptr) w)"
proof (induction ds arbitrary: ptr k w rule: layout_ok.induct)
  case (1 desc next_desc rest)
  then show ?case by (auto simp: Let_def calls_append)
qed simp_all

lemma draw_mesh_ok:
  "mesh_ok h w p \<Longrightarrow> draw_mesh h p w = Ok (calls (mesh_calls h w p) w)"
  by (auto simp: mesh_ok_def draw_mesh_def mesh_calls_def Let_def calls_append
        vertex_attrib_pointers_ok split: option.splits)

lemma render_commands_ok:
  assumes "0 \<le> ii" "num_commands g \<le> int (length (commands g))"
    and "list_all (command_ok h w) (drop (nat ii) (queued_commands g))"
  shows "render_commands h g ii w =
           Ok (calls (concat (map (command_calls h g w) (drop (nat ii) (queued_commands g)))) w)"
  using assms
proof (induction "nat (num_commands g - ii)" arbitrary: ii w)
  case 0
  then have "num_commands g \<le> ii" by simp
  then show ?case
    by (subst render_commands.simps) (simp add: queued_commands_def)
next
  case (Suc n)
  then have lt: "ii < num_commands g" by linarith
  let ?c = "commands g ! nat ii"
  have len: "nat ii < length (queued_commands g)"
    using lt Suc.prems by (simp add: queued_commands_def)
  have "queued_commands g ! nat ii = ?c"
    using lt Suc.prems(1) by (simp add: queued_commands_def)
  moreover have "Suc (nat ii) = nat (ii + 1)"
    using Suc.prems(1) by simp
  ultimately have dr:
    "drop (nat ii) (queued_commands g) = ?c # drop (nat (ii + 1)) (queued_commands g)"
    using Cons_nth_drop_Suc [OF len] by simp
  have ok: "command_ok h w ?c"
    and rest: "list_all (command_ok h w) (drop (nat (ii + 1)) (queued_commands g))"
    using Suc.prems(3) unfolding dr by simp_all
  obtain tex where tex: "texture_heap w (diffuse ?c) = Some tex"
    using ok by (auto simp: command_ok_def)
  have mok: "mesh_ok h w (mesh ?c)"
    using ok by (simp add: command_ok_def)
  let ?w1 = "calls [glUniformMatrix4fv (world_uniform g) 1 GL_FALSE
                      (transform_get_matrix h (transform ?c)),
                    glBindTexture GL_TEXTURE_2D (texture tex)] w"
  have dm: "draw_mesh h (mesh ?c) ?w1 = Ok (calls (mesh_calls h w (mesh ?c)) ?w1)"
    using draw_mesh_ok [of h ?w1 "mesh ?c"] mok by simp
  have IH: "render_commands h g (ii + 1) (calls (command_calls h g w ?c) w) =
      Ok (calls (concat (map (command_calls h g w) (drop (nat (ii + 1)) (queued_commands g))))
            (calls (command_calls h g w ?c) w))"
    using Suc.hyps(1) [of "ii + 1" "calls (command_calls h g w ?c) w"] Suc.hyps(2) Suc.prems rest
    by simp
  have cc: "command_calls h g w ?c =
      [glUniformMatrix4fv (world_uniform g) 1 GL_FALSE (transform_get_matrix h (transform ?c)),
       glBindTexture GL_TEXTURE_2D (texture tex)] @ mesh_calls h w (mesh ?c)"
    by (simp add: command_calls_def tex)
  have step: "render_commands h g ii w =
      render_commands h g (ii + 1) (calls (command_calls h g w ?c) w)"
    using lt Suc.prems(1,2) tex dm
    by (subst render_commands.simps) (simp add: Let_def cc calls_append)
  show ?case
    unfolding step IH dr by (simp add: calls_append)
qed

lemma render_graphics_ok:
  assumes "render_ready h g w"
  shows "render_graphics h g w =
    Ok (g\<lparr>num_commands := 0, num_lights := 0\<rparr>,
        calls
          ([glGetIntegerv GL_FRAMEBUFFER_BINDING,
            glBindFramebuffer GL_FRAMEBUFFER (framebuffer g)] @
           offscreen_setup h g @
           concat (map (command_calls h g w) (queued_commands g)) @
           [CheckGLError,
            glBindFramebuffer GL_FRAMEBUFFER (framebuffer_binding w)] @
           composite_setup h g @
           mesh_calls h w (quad_mesh g) @
           [glBindTexture GL_TEXTURE_2D 0, CheckGLError]) w)"
proof -
  let ?pro = "[glGetIntegerv GL_FRAMEBUFFER_BINDING,
            glBindFramebuffer GL_FRAMEBUFFER (framebuffer g),
            glClearColor (float_literal h 0) (float_literal h (2 / 10))
              (float_literal h (4 / 10)) (float_literal h 1),
            glClear (GL_COLOR_BUFFER_BIT OR GL_DEPTH_BUFFER_BIT),
            CheckGLError,
            glUseProgram (program g),
            glEnableVertexAttribArray kPositionSlot,
            glEnableVertexAttribArray kNormalSlot,
            glEnableVertexAttribArray kTexCoordSlot,
            CheckGLError,
            glUniformMatrix4fv (projection_uniform g) 1 GL_FALSE (projection_matrix g),
            glUniformMatrix4fv (view_uniform g) 1 GL_FALSE
              (mat4_inverse h (transform_get_matrix h (view_transform g))),
            glUniform3fv (lights_uniform g) (num_lights g) (lights g),
            glUniform1i (num_lights_uniform g) (num_lights g),
            glActiveTexture GL_TEXTURE0,
            glUniform1i (diffuse_uniform g) 0]"
  have loop: "render_commands h g 0 (calls ?pro w) =
      Ok (calls (concat (map (command_calls h g w) (queued_commands g))) (calls ?pro w))"
    using render_commands_ok [of 0 g h "calls ?pro w"] assms
    by (simp del: calls.simps add: render_ready_def)
  have quad: "draw_mesh h (quad_mesh g) w' = Ok (calls (mesh_calls h w (quad_mesh g)) w')"
    if "mesh_heap w' = mesh_heap w" for w' :: "('a, 'b, 'd) world"
    using draw_mesh_ok [of h w' "quad_mesh g"] assms that
    by (simp add: render_ready_def mesh_ok_def mesh_calls_def)
  show ?thesis
    unfolding render_graphics_def Let_def loop
    by (simp add: quad calls_append offscreen_setup_def composite_setup_def)
qed

subsection \<open>Reading the trace of a frame\<close>

lemma passes_skip: "\<not> is_glBindFramebuffer e \<Longrightarrow> passes (e # es) = passes es"
  by (cases e) simp_all

lemma passes_bind:
  "passes (glBindFramebuffer target fb # es) =
     (fb, takeWhile (\<lambda>e. \<not> is_glBindFramebuffer e) es) # passes es"
  by simp

lemma passes_append_no_bind:
  "list_all (\<lambda>e. \<not> is_glBindFramebuffer e) es \<Longrightarrow> passes (es @ fs) = passes fs"
  by (induction es) (simp_all add: passes_skip)

lemma passes_no_bind: "list_all (\<lambda>e. \<not> is_glBindFramebuffer e) es \<Longrightarrow> passes es = []"
  using passes_append_no_bind [of es "[]"] by simp

lemma takeWhile_to_bind:
  "list_all (\<lambda>e. \<not> is_glBindFramebuffer e) es \<Longrightarrow>
   takeWhile (\<lambda>e. \<not> is_glBindFramebuffer e) (es @ glBindFramebuffer target fb # fs) = es"
  by (induction es) simp_all

lemma takeWhile_all:
  "list_all (\<lambda>e. \<not> is_glBindFramebuffer e) es \<Longrightarrow>
   takeWhile (\<lambda>e. \<not> is_glBindFramebuffer e) es = es"
  by (induction es) simp_all

lemma binding_call_other:
  "\<not> is_glBindFramebuffer e \<Longrightarrow> framebuffer_binding (call e w) = framebuffer_binding w"
  by (cases e) (simp_all add: call.simps)

lemma binding_calls_no_bind:
  "list_all (\<lambda>e. \<not> is_glBindFramebuffer e) es \<Longrightarrow>
   framebuffer_binding (calls es w) = framebuffer_binding w"
  by (induction es arbitrary: w) (simp_all add: binding_call_other)

lemma binding_calls_bind:
  "list_all (\<lambda>e. \<not> is_glBindFramebuffer e) fs \<Longrightarrow>
   framebuffer_binding (calls (es @ glBindFramebuffer target fb # fs) w) = fb"
  by (simp add: calls_append binding_calls_no_bind call.simps)

lemma layout_calls_kinds:
  "list_all (\<lambda>e. \<not> is_glBindFramebuffer e \<and> \<not> is_glDrawElements e \<and>
      \<not> is_glUniformMatrix4fv e \<and> \<not> is_glUniform3fv e) (layout_calls m ds ptr)"
  by (induction m ds ptr rule: layout_calls.induct) simp_all

lemma layout_calls_filter [simp]:
  "filter is_glDrawElements (layout_calls m ds ptr) = []"
  "filter is_glUniformMatrix4fv (layout_calls m ds ptr) = []"
  "filter is_glUniform3fv (layout_calls m ds ptr) = []"
  "list_all (\<lambda>e. \<not> is_glBindFramebuffer e) (layout_calls m ds ptr)"
  using layout_calls_kinds [of m ds ptr]
  by (auto simp: filter_empty_conv list_all_iff)

lemma mesh_calls_no_bind [simp]:
  "list_all (\<lambda>e. \<not> is_glBindFramebuffer e) (mesh_calls h w p)"
  by (simp add: mesh_calls_def split: option.splits)

lemma mesh_calls_draws:
  "mesh_heap w p = Some m \<Longrightarrow>
   filter is_glDrawElements (mesh_calls h w p) =
     [glDrawElements GL_TRIANGLES (index_count m) (index_format m)]"
  by (simp add: mesh_calls_def)

lemma mesh_calls_no_uploads [simp]:
  "filter is_glUniformMatrix4fv (mesh_calls h w p) = []"
  "filter is_glUniform3fv (mesh_calls h w p) = []"
  by (simp_all add: mesh_calls_def split: option.splits)

lemma command_calls_no_bind [simp]:
  "list_all (\<lambda>e. \<not> is_glBindFramebuffer e) (command_calls h g w c)"
  by (simp add: command_calls_def split: option.splits)

lemma commands_calls_no_bind [simp]:
  "list_all (\<lambda>e. \<not> is_glBindFramebuffer e) (concat (map (command_calls h g w) cs))"
  by (induction cs) simp_all

lemma command_calls_draws:
  "command_ok h w c \<Longrightarrow>
   filter is_glDrawElements (command_calls h g w c) =
     [glDrawElements GL_TRIANGLES (index_count (the (mesh_heap w (mesh c))))
        (index_format (the (mesh_heap w (mesh c))))]"
  by (auto simp: command_ok_def command_calls_def mesh_ok_def mesh_calls_draws
        split: option.splits)

lemma commands_calls_draws:
  "list_all (command_ok h w) cs \<Longrightarrow>
   filter is_glDrawElements (concat (map (command_calls h g w) cs)) =
     map (\<lambda>c. glDrawElements GL_TRIANGLES (index_count (the (mesh_heap w (mesh c))))
                (index_format (the (mesh_heap w (mesh c))))) cs"
  by (induction cs) (simp_all add: command_calls_draws)

lemma command_calls_uploads:
  "command_ok h w c \<Longrightarrow>
   filter is_glUniformMatrix4fv (command_calls h g w c) =
     [glUniformMatrix4fv (world_uniform g) 1 GL_FALSE (transform_get_matrix h (transform c))]"
  by (auto simp: command_ok_def command_calls_def split: option.splits)

lemma commands_calls_uploads:
  "list_all (command_ok h w) cs \<Longrightarrow>
   filter is_glUniformMatrix4fv (concat (map (command_calls h g w) cs)) =
     map (\<lambda>c. glUniformMatrix4fv (world_uniform g) 1 GL_FALSE
                (transform_get_matrix h (transform c))) cs"
  by (induction cs) (simp_all add: command_calls_uploads)

lemma commands_calls_no_3fv [simp]:
  "filter is_glUniform3fv (concat (map (command_calls h g w) cs)) = []"
  by (induction cs) (simp_all add: command_calls_def split: option.splits)


subsection \<open>Submissions\<close>

lemma take_Suc_update:
  "n < length xs \<Longrightarrow> take (Suc n) (xs[n := x]) = take n xs @ [x]"
  using take_Suc_conv_app_nth [of n "xs[n := x]"] by simp

lemma add_render_command_Ok:
  assumes "graphics_inv g" "num_commands g < MAX_RENDER_COMMANDS"
  shows "add_render_command ndebug g a_mesh a_diffuse a_transform =
           Ok (g\<lparr>num_commands := num_commands g + 1,
                 commands := (commands g)[nat (num_commands g) :=
                   \<lparr>transform = a_transform, mesh = a_mesh, diffuse = a_diffuse\<rparr>]\<rparr>)"
  using assms by (simp add: add_render_command_def Let_def graphics_inv_def)

lemma add_directional_light_Ok:
  assumes "graphics_inv g" "num_lights g < MAX_LIGHTS"
  shows "add_directional_light ndebug g light =
           Ok (g\<lparr>num_lights := num_lights g + 1,
                 lights := (lights g)[nat (num_lights g) := light]\<rparr>)"
  using assms by (simp add: add_directional_light_def Let_def graphics_inv_def)

lemma queued_after_add_command:
  assumes "graphics_inv g" "num_commands g < MAX_RENDER_COMMANDS"
  shows "queued_commands (g\<lparr>num_commands := num_commands g + 1,
            commands := (commands g)[nat (num_commands g) := c]\<rparr>) = queued_commands g @ [c]"
proof -
  have "nat (num_commands g) < length (commands g)"
    using assms by (simp add: graphics_inv_def nat_less_iff)
  moreover have "nat (num_commands g + 1) = Suc (nat (num_commands g))"
    using assms by (simp add: graphics_inv_def nat_add_distrib)
  ultimately show ?thesis
    by (simp add: queued_commands_def take_Suc_update)
qed

lemma queued_after_add_light:
  assumes "graphics_inv g" "num_lights g < MAX_LIGHTS"
  shows "queued_lights (g\<lparr>num_lights := num_lights g + 1,
            lights := (lights g)[nat (num_lights g) := l]\<rparr>) = queued_lights g @ [l]"
proof -
  have "nat (num_lights g) < length (lights g)"
    using assms by (simp add: graphics_inv_def nat_less_iff)
  moreover have "nat (num_lights g + 1) = Suc (nat (num_lights g))"
    using assms by (simp add: graphics_inv_def nat_add_distrib)
  ultimately show ?thesis
    by (simp add: queued_lights_def take_Suc_update)
qed

lemma api_run_append:
  "api_run ndebug h (cs @ ds) s =
     (case api_run ndebug h cs s of
        Ok s' \<Rightarrow> api_run ndebug h ds s'
      | Abort f s' \<Rightarrow> Abort f s')"
  by (induction cs arbitrary: s) (simp_all split: result.splits)

lemma same_setup_trans:
  fixes g g1 g2 :: "('m, 't, 'l) Graphics"
  assumes "g2 = g1\<lparr>view_transform := view_transform g2, commands := commands g2,
                     num_commands := num_commands g2, lights := lights g2,
                     num_lights := num_lights g2\<rparr>"
    and "g1 = g\<lparr>view_transform := v, commands := X, num_commands := n, lights := Y,
                  num_lights := k\<rparr>"
  shows "g2 = g\<lparr>view_transform := view_transform g2, commands := commands g2,
                 num_commands := num_commands g2, lights := lights g2,
                 num_lights := num_lights g2\<rparr>"
  by (subst assms(1), subst assms(2)) simp

lemma api_run_submissions:
  assumes "graphics_inv g" "list_all (\<lambda>c. \<not> is_render c) cs"
    and "num_commands g + int (length (submitted_commands cs)) \<le> MAX_RENDER_COMMANDS"
    and "num_lights g + int (length (submitted_lights cs)) \<le> MAX_LIGHTS"
  shows "\<exists>g'. api_run ndebug h cs (g, w) = Ok (g', w) \<and> graphics_inv g' \<and>
           queued_commands g' = queued_commands g @ submitted_commands cs \<and>
           queued_lights g' = queued_lights g @ submitted_lights cs \<and>
           num_commands g' = num_commands g + int (length (submitted_commands cs)) \<and>
           num_lights g' = num_lights g + int (length (submitted_lights cs)) \<and>
           g' = g\<lparr>view_transform := view_transform g', commands := commands g',
                   num_commands := num_commands g', lights := lights g',
                   num_lights := num_lights g'\<rparr>"
  using assms
proof (induction cs arbitrary: g)
  case Nil
  show ?case using Nil.prems(1) by simp
next
  case (Cons c cs)
  have step: "\<exists>g'. api_run ndebug h (c # cs) (g, w) = Ok (g', w) \<and> graphics_inv g' \<and>
           queued_commands g' = queued_commands g @ submitted_commands (c # cs) \<and>
           queued_lights g' = queued_lights g @ submitted_lights (c # cs) \<and>
           num_commands g' = num_commands g + int (length (submitted_commands (c # cs))) \<and>
           num_lights g' = num_lights g + int (length (submitted_lights (c # cs))) \<and>
           g' = g\<lparr>view_transform := view_transform g', commands := commands g',
                   num_commands := num_commands g', lights := lights g',
                   num_lights := num_lights g'\<rparr>"
    if st: "api_step ndebug h c (g, w) = Ok (g1, w)"
      and inv1: "graphics_inv g1"
      and q1: "queued_commands g1 @ submitted_commands cs =
               queued_commands g @ submitted_commands (c # cs)"
      and l1: "queued_lights g1 @ submitted_lights cs =
               queued_lights g @ submitted_lights (c # cs)"
      and n1: "num_commands g1 + int (length (submitted_commands cs)) =
               num_commands g + int (length (submitted_commands (c # cs)))"
      and m1: "num_lights g1 + int (length (submitted_lights cs)) =
               num_lights g + int (length (submitted_lights (c # cs)))"
      and s1: "g1 = g\<lparr>view_transform := v, commands := X, num_commands := n, lights := Y,
                       num_lights := k\<rparr>"
    for g1 v X n Y k
  proof -
    have "list_all (\<lambda>c. \<not> is_render c) cs"
      using Cons.prems(2) by simp
    moreover have "num_commands g1 + int (length (submitted_commands cs)) \<le> MAX_RENDER_COMMANDS"
      using Cons.prems(3) n1 by simp
    moreover have "num_lights g1 + int (length (submitted_lights cs)) \<le> MAX_LIGHTS"
      using Cons.prems(4) m1 by simp
    ultimately obtain g' where g': "api_run ndebug h cs (g1, w) = Ok (g', w)" "graphics_inv g'"
        "queued_commands g' = queued_commands g1 @ submitted_commands cs"
        "queued_lights g' = queued_lights g1 @ submitted_lights cs"
        "num_commands g' = num_commands g1 + int (length (submitted_commands cs))"
        "num_lights g' = num_lights g1 + int (length (submitted_lights cs))"
        "g' = g1\<lparr>view_transform := view_transform g', commands := commands g',
                   num_commands := num_commands g', lights := lights g',
                   num_lights := num_lights g'\<rparr>"
      using Cons.IH [OF inv1] by blast
    have run: "api_run ndebug h (c # cs) (g, w) = Ok (g', w)"
      using st g'(1) by simp
    show ?thesis
      apply (rule exI [of _ g'])
      apply (intro conjI)
            apply (rule run)
           apply (rule g'(2))
          apply (simp only: g'(3) q1)
         apply (simp only: g'(4) l1)
        apply (simp only: g'(5) n1)
       apply (simp only: g'(6) m1)
      apply (rule same_setup_trans [OF g'(7) s1])
      done
  qed
  show ?case
  proof (cases c)
    case (AddRenderCommand a_mesh a_diffuse a_transform)
    let ?c = "\<lparr>transform = a_transform, mesh = a_mesh, diffuse = a_diffuse\<rparr>"
    let ?g1 = "g\<lparr>num_commands := num_commands g + 1,
                  commands := (commands g)[nat (num_commands g) := ?c]\<rparr>"
    have lt: "num_commands g < MAX_RENDER_COMMANDS"
      using Cons.prems(3) AddRenderCommand by simp
    have "api_step ndebug h c (g, w) = Ok (?g1, w)"
      using add_render_command_Ok [OF Cons.prems(1) lt] AddRenderCommand by simp
    moreover have "graphics_inv ?g1"
      using Cons.prems(1) lt by (simp add: graphics_inv_def)
    moreover have "queued_commands ?g1 @ submitted_commands cs =
        queued_commands g @ submitted_commands (c # cs)"
      using queued_after_add_command [OF Cons.prems(1) lt, of ?c] AddRenderCommand by simp
    moreover have "queued_lights ?g1 @ submitted_lights cs =
        queued_lights g @ submitted_lights (c # cs)"
      using AddRenderCommand by (simp add: queued_lights_def)
    moreover have "num_commands ?g1 + int (length (submitted_commands cs)) =
        num_commands g + int (length (submitted_commands (c # cs)))"
      using AddRenderCommand by simp
    moreover have "num_lights ?g1 + int (length (submitted_lights cs)) =
        num_lights g + int (length (submitted_lights (c # cs)))"
      using AddRenderCommand by simp
    moreover have "?g1 = g\<lparr>view_transform := view_transform g,
        commands := (commands g)[nat (num_commands g) := ?c],
        num_commands := num_commands g + 1, lights := lights g, num_lights := num_lights g\<rparr>"
      by simp
    ultimately show ?thesis by (rule step)
  next
    case (AddDirectionalLight light)
    let ?g1 = "g\<lparr>num_lights := num_lights g + 1,
                  lights := (lights g)[nat (num_lights g) := light]\<rparr>"
    have lt: "num_lights g < MAX_LIGHTS"
      using Cons.prems(4) AddDirectionalLight by simp
    have "api_step ndebug h c (g, w) = Ok (?g1, w)"
      using add_directional_light_Ok [OF Cons.prems(1) lt] AddDirectionalLight by simp
    moreover have "graphics_inv ?g1"
      using Cons.prems(1) lt by (simp add: graphics_inv_def)
    moreover have "queued_commands ?g1 @ submitted_commands cs =
        queued_commands g @ submitted_commands (c # cs)"
      using AddDirectionalLight by (simp add: queued_commands_def)
    moreover have "queued_lights ?g1 @ submitted_lights cs =
        queued_lights g @ submitted_lights (c # cs)"
      using queued_after_add_light [OF Cons.prems(1) lt, of light] AddDirectionalLight by simp
    moreover have "num_commands ?g1 + int (length (submitted_commands cs)) =
        num_commands g + int (length (submitted_commands (c # cs)))"
      using AddDirectionalLight by simp
    moreover have "num_lights ?g1 + int (length (submitted_lights cs)) =
        num_lights g + int (length (submitted_lights (c # cs)))"
      using AddDirectionalLight by simp
    moreover have "?g1 = g\<lparr>view_transform := view_transform g, commands := commands g,
        num_commands := num_commands g, lights := (lights g)[nat (num_lights g) := light],
        num_lights := num_lights g + 1\<rparr>"
      by simp
    ultimately show ?thesis by (rule step)
  next
    case (SetViewTransform view)
    let ?g1 = "g\<lparr>view_transform := view\<rparr>"
    have "api_step ndebug h c (g, w) = Ok (?g1, w)"
      using SetViewTransform by (simp add: set_view_transform_def)
    moreover have "graphics_inv ?g1"
      using Cons.prems(1) by (simp add: graphics_inv_def)
    moreover have "queued_commands ?g1 @ submitted_commands cs =
        queued_commands g @ submitted_commands (c # cs)"
      using SetViewTransform by (simp add: queued_commands_def)
    moreover have "queued_lights ?g1 @ submitted_lights cs =
        queued_lights g @ submitted_lights (c # cs)"
      using SetViewTransform by (simp add: queued_lights_def)
    moreover have "num_commands ?g1 + int (length (submitted_commands cs)) =
        num_commands g + int (length (submitted_commands (c # cs)))"
      using SetViewTransform by simp
    moreover have "num_lights ?g1 + int (length (submitted_lights cs)) =
        num_lights g + int (length (submitted_lights (c # cs)))"
      using SetViewTransform by simp
    moreover have "?g1 = g\<lparr>view_transform := view, commands := commands g,
        num_commands := num_commands g, lights := lights g, num_lights := num_lights g\<rparr>"
      by simp
    ultimately show ?thesis by (rule step)
  next
    case RenderGraphics
    then show ?thesis using Cons.prems(2) by simp
  qed
qed

lemma no_bind_set:
  "list_all (\<lambda>e. \<not> is_glBindFramebuffer e) es \<Longrightarrow> e \<in> set es \<Longrightarrow> \<not> is_glBindFramebuffer e"
  by (simp add: list_all_iff)

lemma no_bind_filter:
  "list_all (\<lambda>e. \<not> is_glBindFramebuffer e) es \<Longrightarrow> filter is_glBindFramebuffer es = []"
  by (simp add: list_all_iff filter_empty_conv)

lemma takeWhile_no_bind_append:
  "list_all (\<lambda>e. \<not> is_glBindFramebuffer e) es \<Longrightarrow>
   takeWhile (\<lambda>e. \<not> is_glBindFramebuffer e) (es @ fs) =
     es @ takeWhile (\<lambda>e. \<not> is_glBindFramebuffer e) fs"
  by (induction es) simp_all

lemmas frame_simps =
  passes_append_no_bind takeWhile_no_bind_append no_bind_filter binding_calls_no_bind

subsection \<open>The capacity of the queues\<close>

lemma example_graphics_inv: "graphics_inv example_graphics"
  by (simp add: graphics_inv_def example_graphics_def MAX_RENDER_COMMANDS_def MAX_LIGHTS_def)

text \<open>
  C1. In a build with assertions, on every well-formed structure: a draw command
  submitted while fewer than 1024 are queued passes the assertion and is appended to the
  queue, and the count grows by one; otherwise 1024 are queued, the submission is the
  1025th, and it ends in the failed assertion. The same holds of a light, with 64 and the
  65th.
\<close>

theorem add_capacity_contract:
  assumes "graphics_inv g"
  shows "(if num_commands g < MAX_RENDER_COMMANDS
          then \<exists>g'. add_render_command False g a_mesh a_diffuse a_transform = Ok g' \<and>
                 num_commands g' = num_commands g + 1 \<and>
                 queued_commands g' = queued_commands g @
                   [\<lparr>transform = a_transform, mesh = a_mesh, diffuse = a_diffuse\<rparr>]
          else num_commands g = MAX_RENDER_COMMANDS \<and>
               (\<exists>g'. add_render_command False g a_mesh a_diffuse a_transform =
                  Abort AssertionFailed g')) \<and>
         (if num_lights g < MAX_LIGHTS
          then \<exists>g'. add_directional_light False g light = Ok g' \<and>
                 num_lights g' = num_lights g + 1 \<and>
                 queued_lights g' = queued_lights g @ [light]
          else num_lights g = MAX_LIGHTS \<and>
               (\<exists>g'. add_directional_light False g light = Abort AssertionFailed g'))"
proof -
  have c: "nat (num_commands g + 1) = Suc (nat (num_commands g))"
    and l: "nat (num_lights g + 1) = Suc (nat (num_lights g))"
    using assms by (simp_all add: graphics_inv_def nat_add_distrib)
  have t: "take (Suc n) (xs[n := x]) = take n xs @ [x]" if "n < length xs"
    for n x and xs :: "'z list"
    using that take_Suc_conv_app_nth [of n "xs[n := x]"] by simp
  have "nat (num_commands g) < length (commands g)" if "num_commands g < MAX_RENDER_COMMANDS"
    using assms that by (simp add: graphics_inv_def nat_less_iff)
  moreover have "nat (num_lights g) < length (lights g)" if "num_lights g < MAX_LIGHTS"
    using assms that by (simp add: graphics_inv_def nat_less_iff)
  ultimately have "num_commands g < MAX_RENDER_COMMANDS \<Longrightarrow>
      take (Suc (nat (num_commands g))) ((commands g)[nat (num_commands g) := x]) =
      take (nat (num_commands g)) (commands g) @ [x]"
    and "num_lights g < MAX_LIGHTS \<Longrightarrow>
      take (Suc (nat (num_lights g))) ((lights g)[nat (num_lights g) := y]) =
      take (nat (num_lights g)) (lights g) @ [y]" for x y
    by (simp_all add: t)
  then show ?thesis
    using assms
    by (simp add: add_render_command_def add_directional_light_def Let_def graphics_inv_def
          queued_commands_def queued_lights_def c l)
qed

theorem add_capacity_contract_witness:
  "(\<exists>g'. add_render_command False example_graphics 3 2 5 = Ok g' \<and> num_commands g' = 1 \<and>
      queued_commands g' = [\<lparr>transform = 5, mesh = 3, diffuse = 2\<rparr>]) \<and>
   (\<exists>g'. add_directional_light False example_graphics 7 = Ok g' \<and> num_lights g' = 1 \<and>
      queued_lights g' = [7]) \<and>
   (\<exists>g'. add_render_command False (example_graphics\<lparr>num_commands := 1024\<rparr>) 3 2 5 =
      Abort AssertionFailed g') \<and>
   (\<exists>g'. add_directional_light False (example_graphics\<lparr>num_lights := 64\<rparr>) 7 =
      Abort AssertionFailed g')"
proof -
  have inv0: "graphics_inv example_graphics"
    and inv1: "graphics_inv (example_graphics\<lparr>num_commands := 1024\<rparr>)"
    and inv2: "graphics_inv (example_graphics\<lparr>num_lights := 64\<rparr>)"
    by (simp_all add: graphics_inv_def example_graphics_def MAX_RENDER_COMMANDS_def
          MAX_LIGHTS_def)
  have q: "queued_commands example_graphics = []" "queued_lights example_graphics = []"
    "num_commands example_graphics = 0" "num_lights example_graphics = 0"
    by (simp_all add: queued_commands_def queued_lights_def example_graphics_def)
  show ?thesis
    using add_capacity_contract [OF inv0, of 3 2 5 7]
      add_capacity_contract [OF inv1, of 3 2 5 7]
      add_capacity_contract [OF inv2, of 3 2 5 7]
    by (simp add: q MAX_RENDER_COMMANDS_def MAX_LIGHTS_def)
qed

text \<open>
  C10. The counter is incremented before the assertion is evaluated: when a submission
  finds the queue full, the run stops on the failed assertion with a stored count of
  1025 (65 for lights), above the capacity, and the array untouched; compiled with
  \<^verbatim>\<open>NDEBUG\<close>, the same submission goes on to store the entry at index 1024 (64), the
  first slot past the array of 1024 (64) slots.
\<close>

theorem overflow_not_atomic:
  assumes "graphics_inv g"
  shows "(num_commands g = MAX_RENDER_COMMANDS \<longrightarrow>
            (\<exists>g'. add_render_command False g a_mesh a_diffuse a_transform =
                     Abort AssertionFailed g' \<and>
                   num_commands g' = MAX_RENDER_COMMANDS + 1 \<and> commands g' = commands g) \<and>
            (\<exists>g'. add_render_command True g a_mesh a_diffuse a_transform =
                     Abort (IndexOutOfBounds MAX_RENDER_COMMANDS) g' \<and>
                   num_commands g' = MAX_RENDER_COMMANDS + 1 \<and>
                   int (length (commands g')) = MAX_RENDER_COMMANDS)) \<and>
         (num_lights g = MAX_LIGHTS \<longrightarrow>
            (\<exists>g'. add_directional_light False g light = Abort AssertionFailed g' \<and>
                   num_lights g' = MAX_LIGHTS + 1 \<and> lights g' = lights g) \<and>
            (\<exists>g'. add_directional_light True g light =
                     Abort (IndexOutOfBounds MAX_LIGHTS) g' \<and>
                   num_lights g' = MAX_LIGHTS + 1 \<and>
                   int (length (lights g')) = MAX_LIGHTS))"
  using assms
  by (simp add: add_render_command_def add_directional_light_def Let_def graphics_inv_def)

theorem overflow_not_atomic_witness:
  "(\<exists>g'. add_render_command False (example_graphics\<lparr>num_commands := 1024, num_lights := 64\<rparr>)
            3 2 5 = Abort AssertionFailed g' \<and> num_commands g' = 1025) \<and>
   (\<exists>g'. add_render_command True (example_graphics\<lparr>num_commands := 1024, num_lights := 64\<rparr>)
            3 2 5 = Abort (IndexOutOfBounds 1024) g' \<and> length (commands g') = 1024) \<and>
   (\<exists>g'. add_directional_light False (example_graphics\<lparr>num_commands := 1024, num_lights := 64\<rparr>)
            7 = Abort AssertionFailed g' \<and> num_lights g' = 65) \<and>
   (\<exists>g'. add_directional_light True (example_graphics\<lparr>num_commands := 1024, num_lights := 64\<rparr>)
            7 = Abort (IndexOutOfBounds 64) g' \<and> length (lights g') = 64)"
proof -
  have inv: "graphics_inv (example_graphics\<lparr>num_commands := 1024, num_lights := 64\<rparr>)"
    by (simp add: graphics_inv_def example_graphics_def MAX_RENDER_COMMANDS_def MAX_LIGHTS_def)
  show ?thesis
    using overflow_not_atomic [OF inv, of 3 2 5 7]
    by (auto simp: MAX_RENDER_COMMANDS_def MAX_LIGHTS_def)
qed

subsection \<open>The shape of a frame\<close>

lemma offscreen_setup_kinds [simp]:
  "list_all (\<lambda>e. \<not> is_glBindFramebuffer e) (offscreen_setup h g)"
  "filter is_glDrawElements (offscreen_setup h g) = []"
  "filter is_glUniformMatrix4fv (offscreen_setup h g) =
     [glUniformMatrix4fv (projection_uniform g) 1 GL_FALSE (projection_matrix g),
      glUniformMatrix4fv (view_uniform g) 1 GL_FALSE
        (mat4_inverse h (transform_get_matrix h (view_transform g)))]"
  "filter is_glUniform3fv (offscreen_setup h g) =
     [glUniform3fv (lights_uniform g) (num_lights g) (lights g)]"
  by (simp_all add: offscreen_setup_def)

lemma composite_setup_kinds [simp]:
  "list_all (\<lambda>e. \<not> is_glBindFramebuffer e) (composite_setup h g)"
  "filter is_glDrawElements (composite_setup h g) = []"
  "filter is_glUniformMatrix4fv (composite_setup h g) = []"
  "filter is_glUniform3fv (composite_setup h g) = []"
  by (simp_all add: composite_setup_def)

lemma frame_passes:
  assumes "list_all (\<lambda>e. \<not> is_glBindFramebuffer e) off"
    and "list_all (\<lambda>e. \<not> is_glBindFramebuffer e) cps"
  shows "passes ([glGetIntegerv GL_FRAMEBUFFER_BINDING,
                  glBindFramebuffer GL_FRAMEBUFFER fb] @ off @
                 [CheckGLError, glBindFramebuffer GL_FRAMEBUFFER fb0] @ cps) =
           [(fb, off @ [CheckGLError]), (fb0, cps)]"
  using assms
  by (simp add: passes_append_no_bind takeWhile_no_bind_append takeWhile_all passes_no_bind)

lemma frame_binding:
  assumes "list_all (\<lambda>e. \<not> is_glBindFramebuffer e) cps"
  shows "framebuffer_binding
           (calls (pre @ [CheckGLError, glBindFramebuffer GL_FRAMEBUFFER fb0] @ cps) w) = fb0"
  using binding_calls_bind [OF assms, of "pre @ [CheckGLError]" GL_FRAMEBUFFER fb0 w]
  by simp

lemma frame_binds:
  assumes "list_all (\<lambda>e. \<not> is_glBindFramebuffer e) off"
    and "list_all (\<lambda>e. \<not> is_glBindFramebuffer e) cps"
  shows "filter is_glBindFramebuffer
           ([glGetIntegerv GL_FRAMEBUFFER_BINDING,
             glBindFramebuffer GL_FRAMEBUFFER fb] @ off @
            [CheckGLError, glBindFramebuffer GL_FRAMEBUFFER fb0] @ cps) =
         [glBindFramebuffer GL_FRAMEBUFFER fb, glBindFramebuffer GL_FRAMEBUFFER fb0]"
  using assms by (simp add: no_bind_filter)

lemma render_graphics_state:
  "fst (state_of (render_graphics h g w)) = g \<or>
   fst (state_of (render_graphics h g w)) = g\<lparr>num_commands := 0, num_lights := 0\<rparr>"
  by (simp add: render_graphics_def Let_def split: result.splits)

lemma render_graphics_counts:
  "render_graphics h g w = Ok (g', w') \<Longrightarrow> num_commands g' = 0 \<and> num_lights g' = 0"
  by (auto simp: render_graphics_def Let_def split: result.splits)

lemma add_render_command_fixed [simp]:
  "projection_matrix (state_of (add_render_command ndebug g a_mesh a_diffuse a_transform)) =
     projection_matrix g"
  "view_transform (state_of (add_render_command ndebug g a_mesh a_diffuse a_transform)) =
     view_transform g"
  by (simp_all add: add_render_command_def Let_def)

lemma add_directional_light_fixed [simp]:
  "projection_matrix (state_of (add_directional_light ndebug g light)) = projection_matrix g"
  "view_transform (state_of (add_directional_light ndebug g light)) = view_transform g"
  by (simp_all add: add_directional_light_def Let_def)

lemma render_graphics_fixed [simp]:
  "projection_matrix (fst (state_of (render_graphics h g w))) = projection_matrix g"
  "view_transform (fst (state_of (render_graphics h g w))) = view_transform g"
  using render_graphics_state [of h g w] by auto

lemma api_step_projection:
  "projection_matrix (fst (state_of (api_step ndebug h c s))) = projection_matrix (fst s)"
proof (cases s)
  case (Pair g w)
  show ?thesis
  proof (cases c)
    case (AddRenderCommand a_mesh a_diffuse a_transform)
    then show ?thesis
      using add_render_command_fixed(1) [of ndebug g a_mesh a_diffuse a_transform] Pair
      by (cases "add_render_command ndebug g a_mesh a_diffuse a_transform") simp_all
  next
    case (AddDirectionalLight light)
    then show ?thesis
      using add_directional_light_fixed(1) [of ndebug g light] Pair
      by (cases "add_directional_light ndebug g light") simp_all
  next
    case (SetViewTransform view)
    then show ?thesis using Pair by (simp add: set_view_transform_def)
  next
    case RenderGraphics
    then show ?thesis using Pair by simp
  qed
qed

lemma api_step_view:
  "\<not> is_set_view c \<Longrightarrow>
   view_transform (fst (state_of (api_step ndebug h c s))) = view_transform (fst s)"
proof (cases s)
  case (Pair g w)
  assume nv: "\<not> is_set_view c"
  show ?thesis
  proof (cases c)
    case (AddRenderCommand a_mesh a_diffuse a_transform)
    then show ?thesis
      using add_render_command_fixed(2) [of ndebug g a_mesh a_diffuse a_transform] Pair
      by (cases "add_render_command ndebug g a_mesh a_diffuse a_transform") simp_all
  next
    case (AddDirectionalLight light)
    then show ?thesis
      using add_directional_light_fixed(2) [of ndebug g light] Pair
      by (cases "add_directional_light ndebug g light") simp_all
  next
    case (SetViewTransform view)
    then show ?thesis using nv by simp
  next
    case RenderGraphics
    then show ?thesis using Pair by simp
  qed
qed

lemma api_run_projection:
  "projection_matrix (fst (state_of (api_run ndebug h cs s))) = projection_matrix (fst s)"
proof (induction cs arbitrary: s)
  case Nil
  show ?case by simp
next
  case (Cons c cs)
  show ?case
  proof (cases "api_step ndebug h c s")
    case (Ok s')
    then show ?thesis
      using Cons.IH [of s'] api_step_projection [of ndebug h c s] by simp
  next
    case (Abort f s')
    then show ?thesis
      using api_step_projection [of ndebug h c s] by simp
  qed
qed

lemma api_run_view:
  "list_all (\<lambda>c. \<not> is_set_view c) cs \<Longrightarrow>
   view_transform (fst (state_of (api_run ndebug h cs s))) = view_transform (fst s)"
proof (induction cs arbitrary: s)
  case Nil
  show ?case by simp
next
  case (Cons c cs)
  then have nv: "\<not> is_set_view c" and rest: "list_all (\<lambda>c. \<not> is_set_view c) cs"
    by simp_all
  show ?case
  proof (cases "api_step ndebug h c s")
    case (Ok s')
    then show ?thesis
      using Cons.IH [OF rest, of s'] api_step_view [OF nv, of ndebug h s] by simp
  next
    case (Abort f s')
    then show ?thesis
      using api_step_view [OF nv, of ndebug h s] by simp
  qed
qed


lemma submissions_render_ready:
  assumes "graphics_inv g" "list_all (\<lambda>c. \<not> is_render c) cs"
    and "num_commands g + int (length (submitted_commands cs)) \<le> MAX_RENDER_COMMANDS"
    and "num_lights g + int (length (submitted_lights cs)) \<le> MAX_LIGHTS"
    and "list_all (command_ok h w) (queued_commands g @ submitted_commands cs)"
    and "mesh_ok h w (quad_mesh g)"
  shows "\<exists>g1. api_run ndebug h cs (g, w) = Ok (g1, w) \<and> graphics_inv g1 \<and>
           render_ready h g1 w \<and>
           queued_commands g1 = queued_commands g @ submitted_commands cs \<and>
           queued_lights g1 = queued_lights g @ submitted_lights cs \<and>
           num_commands g1 = num_commands g + int (length (submitted_commands cs)) \<and>
           num_lights g1 = num_lights g + int (length (submitted_lights cs)) \<and>
           g1 = g\<lparr>view_transform := view_transform g1, commands := commands g1,
                   num_commands := num_commands g1, lights := lights g1,
                   num_lights := num_lights g1\<rparr>"
proof -
  obtain g1 where g1: "api_run ndebug h cs (g, w) = Ok (g1, w)" "graphics_inv g1"
      "queued_commands g1 = queued_commands g @ submitted_commands cs"
      "queued_lights g1 = queued_lights g @ submitted_lights cs"
      "num_commands g1 = num_commands g + int (length (submitted_commands cs))"
      "num_lights g1 = num_lights g + int (length (submitted_lights cs))"
      "g1 = g\<lparr>view_transform := view_transform g1, commands := commands g1,
                num_commands := num_commands g1, lights := lights g1,
                num_lights := num_lights g1\<rparr>"
    using api_run_submissions [OF assms(1-4), of ndebug h w] by blast
  have "quad_mesh g1 = quad_mesh g"
    by (subst g1(7)) simp
  moreover have "num_commands g1 \<le> int (length (commands g1))"
    using g1(2) by (simp add: graphics_inv_def)
  ultimately have "render_ready h g1 w"
    using assms(5,6) g1(3) by (simp add: render_ready_def)
  then show ?thesis
    using g1 by blast
qed

subsection \<open>The concrete setting\<close>

lemma example_mesh_ok:
  "mesh_ok example_headers example_world 3" "mesh_ok example_headers example_world 2"
  by (simp_all add: mesh_ok_def example_headers_def example_world_def example_cube_def
        example_quad_def)

lemma example_command_ok:
  "command_ok example_headers example_world \<lparr>transform = t, mesh = 3, diffuse = 2\<rparr>"
  "command_ok example_headers example_world \<lparr>transform = t, mesh = 2, diffuse = 3\<rparr>"
  using example_mesh_ok by (simp_all add: command_ok_def example_world_def)

lemma example_queues_empty:
  "queued_commands example_graphics = []" "queued_lights example_graphics = []"
  "num_commands example_graphics = 0" "num_lights example_graphics = 0"
  "quad_mesh example_graphics = 2"
  by (simp_all add: queued_commands_def queued_lights_def example_graphics_def)

lemma example_render_ready: "render_ready example_headers example_graphics example_world"
  using example_mesh_ok
  by (simp add: render_ready_def example_queues_empty)

subsection \<open>What a frame does\<close>

text \<open>
  C2. Take a well-formed structure and any sequence of submissions and camera changes
  that keeps the queues within their capacities (at most 1024 draw commands and 64
  lights in all), with live meshes and textures behind the submitted pointers. The
  render call that follows returns, and leaves both counts at 0. Besides, whenever
  \<^verbatim>\<open>render_graphics\<close> returns at all, both counts are 0.
\<close>

theorem render_resets_counts:
  assumes "graphics_inv g" "list_all (\<lambda>c. \<not> is_render c) cs"
    and "num_commands g + int (length (submitted_commands cs)) \<le> MAX_RENDER_COMMANDS"
    and "num_lights g + int (length (submitted_lights cs)) \<le> MAX_LIGHTS"
    and "list_all (command_ok h w) (queued_commands g @ submitted_commands cs)"
    and "mesh_ok h w (quad_mesh g)"
  shows "(\<exists>g' w'. api_run ndebug h (cs @ [RenderGraphics]) (g, w) = Ok (g', w') \<and>
            num_commands g' = 0 \<and> num_lights g' = 0) \<and>
         (\<forall>g0 w0 g' w'. render_graphics h g0 w0 = Ok (g', w') \<longrightarrow>
            num_commands g' = 0 \<and> num_lights g' = 0)"
proof -
  obtain g1 where g1: "api_run ndebug h cs (g, w) = Ok (g1, w)" "render_ready h g1 w"
    using submissions_render_ready [OF assms, of ndebug] by blast
  have "api_run ndebug h (cs @ [RenderGraphics]) (g, w) = render_graphics h g1 w"
    by (simp add: api_run_append g1(1) split: result.splits)
  then have "\<exists>g' w'. api_run ndebug h (cs @ [RenderGraphics]) (g, w) = Ok (g', w') \<and>
      num_commands g' = 0 \<and> num_lights g' = 0"
    by (simp add: render_graphics_ok [OF g1(2)])
  then show ?thesis
    using render_graphics_counts by blast
qed

theorem render_resets_counts_witness:
  "(\<exists>g' w'. api_run False example_headers
       ([AddRenderCommand 3 2 5, AddDirectionalLight 7, AddRenderCommand 2 3 6] @
        [RenderGraphics]) (example_graphics, example_world) = Ok (g', w') \<and>
       num_commands g' = 0 \<and> num_lights g' = 0) \<and>
   (\<exists>g' w'. render_graphics example_headers example_graphics example_world = Ok (g', w') \<and>
       num_commands g' = 0 \<and> num_lights g' = 0)"
proof -
  have a: "list_all (\<lambda>c. \<not> is_render c)
      [AddRenderCommand 3 2 (5::int), AddDirectionalLight (7::nat), AddRenderCommand 2 3 6]"
    by simp
  have b: "num_commands example_graphics + int (length (submitted_commands
      [AddRenderCommand 3 2 (5::int), AddDirectionalLight (7::nat), AddRenderCommand 2 3 6]))
        \<le> MAX_RENDER_COMMANDS"
    by (simp add: example_queues_empty MAX_RENDER_COMMANDS_def)
  have c: "num_lights example_graphics + int (length (submitted_lights
      [AddRenderCommand 3 2 (5::int), AddDirectionalLight (7::nat), AddRenderCommand 2 3 6]))
        \<le> MAX_LIGHTS"
    by (simp add: example_queues_empty MAX_LIGHTS_def)
  have d: "list_all (command_ok example_headers example_world)
      (queued_commands example_graphics @ submitted_commands
        [AddRenderCommand 3 2 (5::int), AddDirectionalLight (7::nat), AddRenderCommand 2 3 6])"
    by (simp add: example_queues_empty example_command_ok)
  have e: "mesh_ok example_headers example_world (quad_mesh example_graphics)"
    by (simp add: example_queues_empty example_mesh_ok)
  note inst = render_resets_counts [OF example_graphics_inv a b c d e, of False]
  obtain g' w' where r: "render_graphics example_headers example_graphics example_world =
      Ok (g', w')"
    using render_graphics_ok [OF example_render_ready] by blast
  then have "num_commands g' = 0 \<and> num_lights g' = 0"
    using inst by blast
  then show ?thesis
    using inst r by blast
qed

lemma render_graphics_frame:
  assumes "render_ready h g w"
  shows "\<exists>off cps.
     off = offscreen_setup h g @ concat (map (command_calls h g w) (queued_commands g)) \<and>
     cps = composite_setup h g @ mesh_calls h w (quad_mesh g) @
           [glBindTexture GL_TEXTURE_2D 0, CheckGLError] \<and>
     list_all (\<lambda>e. \<not> is_glBindFramebuffer e) off \<and>
     list_all (\<lambda>e. \<not> is_glBindFramebuffer e) cps \<and>
     render_graphics h g w =
       Ok (g\<lparr>num_commands := 0, num_lights := 0\<rparr>,
           calls ([glGetIntegerv GL_FRAMEBUFFER_BINDING,
                   glBindFramebuffer GL_FRAMEBUFFER (framebuffer g)] @ off @
                  [CheckGLError, glBindFramebuffer GL_FRAMEBUFFER (framebuffer_binding w)] @
                  cps) w)"
  using render_graphics_ok [OF assms] by simp

text \<open>
  C9. Whenever \<^verbatim>\<open>render_graphics\<close> runs to its end, the first call of the frame is the
  query of the framebuffer binding, made before the offscreen framebuffer is bound; the
  frame binds exactly two framebuffers, the offscreen one and then the one that was bound
  when the call began (whatever it was, not framebuffer 0), and that binding is in effect
  again when the call returns.
\<close>

theorem render_restores_binding:
  assumes "render_ready h g w"
  shows "\<exists>g' w' frame. render_graphics h g w = Ok (g', w') \<and>
           trace w' = trace w @ frame \<and>
           take 2 frame = [glGetIntegerv GL_FRAMEBUFFER_BINDING,
                           glBindFramebuffer GL_FRAMEBUFFER (framebuffer g)] \<and>
           filter is_glBindFramebuffer frame =
             [glBindFramebuffer GL_FRAMEBUFFER (framebuffer g),
              glBindFramebuffer GL_FRAMEBUFFER (framebuffer_binding w)] \<and>
           map fst (passes frame) = [framebuffer g, framebuffer_binding w] \<and>
           framebuffer_binding w' = framebuffer_binding w"
proof -
  obtain off cps where nb: "list_all (\<lambda>e. \<not> is_glBindFramebuffer e) off"
      "list_all (\<lambda>e. \<not> is_glBindFramebuffer e) cps"
    and r: "render_graphics h g w =
       Ok (g\<lparr>num_commands := 0, num_lights := 0\<rparr>,
           calls ([glGetIntegerv GL_FRAMEBUFFER_BINDING,
                   glBindFramebuffer GL_FRAMEBUFFER (framebuffer g)] @ off @
                  [CheckGLError, glBindFramebuffer GL_FRAMEBUFFER (framebuffer_binding w)] @
                  cps) w)"
    using render_graphics_frame [OF assms] by blast
  let ?frame = "[glGetIntegerv GL_FRAMEBUFFER_BINDING,
                 glBindFramebuffer GL_FRAMEBUFFER (framebuffer g)] @ off @
                [CheckGLError, glBindFramebuffer GL_FRAMEBUFFER (framebuffer_binding w)] @ cps"
  have f1: "trace (calls ?frame w) = trace w @ ?frame"
    by (rule trace_calls)
  have f2: "take 2 ?frame = [glGetIntegerv GL_FRAMEBUFFER_BINDING,
                           glBindFramebuffer GL_FRAMEBUFFER (framebuffer g)]"
    by simp
  note f3 = frame_binds [OF nb, of "framebuffer g" "framebuffer_binding w"]
  have f4: "map fst (passes ?frame) = [framebuffer g, framebuffer_binding w]"
    by (simp only: frame_passes [OF nb]) simp
  have f5: "framebuffer_binding (calls ?frame w) = framebuffer_binding w"
    using frame_binding [OF nb(2), of "[glGetIntegerv GL_FRAMEBUFFER_BINDING,
                 glBindFramebuffer GL_FRAMEBUFFER (framebuffer g)] @ off" "framebuffer_binding w" w]
    by simp
  show ?thesis
    by (intro exI conjI, rule r, rule f1, rule f2, rule f3, rule f4, rule f5)
qed

theorem render_restores_binding_witness:
  "\<exists>g' w' frame. render_graphics example_headers example_graphics example_world = Ok (g', w') \<and>
     trace w' = trace example_world @ frame \<and>
     take 2 frame = [glGetIntegerv GL_FRAMEBUFFER_BINDING, glBindFramebuffer GL_FRAMEBUFFER 1] \<and>
     filter is_glBindFramebuffer frame =
       [glBindFramebuffer GL_FRAMEBUFFER 1, glBindFramebuffer GL_FRAMEBUFFER 7] \<and>
     map fst (passes frame) = [1, 7] \<and> framebuffer_binding w' = 7"
proof -
  have "framebuffer example_graphics = 1" "framebuffer_binding example_world = 7"
    by (simp_all add: example_graphics_def example_world_def)
  then show ?thesis
    using render_restores_binding [OF example_render_ready] by simp
qed

lemma draws_per_pass_frame:
  assumes "list_all (\<lambda>e. \<not> is_glBindFramebuffer e) off"
    and "list_all (\<lambda>e. \<not> is_glBindFramebuffer e) cps"
  shows "draws_per_pass ([glGetIntegerv GL_FRAMEBUFFER_BINDING,
                  glBindFramebuffer GL_FRAMEBUFFER fb] @ off @
                 [CheckGLError, glBindFramebuffer GL_FRAMEBUFFER fb0] @ cps) =
           [(fb, length (filter is_glDrawElements off)),
            (fb0, length (filter is_glDrawElements cps))]"
  unfolding draws_per_pass_def frame_passes [OF assms] by simp

lemma composite_setup_counts [simp]:
  "composite_setup h (g\<lparr>num_commands := n, num_lights := k\<rparr>) = composite_setup h g"
  by (simp add: composite_setup_def)

lemma composite_setup_take:
  "take 2 (composite_setup h g @ rest) =
     [glClearColor (float_literal h 1) (float_literal h 0) (float_literal h 1)
        (float_literal h 1),
      glClear (GL_COLOR_BUFFER_BIT OR GL_DEPTH_BUFFER_BIT)]"
  by (simp add: composite_setup_def)

lemma render_ready_again:
  assumes "render_ready h g w"
  shows "render_ready h (g\<lparr>num_commands := 0, num_lights := 0\<rparr>) (calls es w)"
  using assms by (simp add: render_ready_def queued_commands_def)

lemma quad_draws:
  assumes "render_ready h g w"
  shows "length (filter is_glDrawElements
           (composite_setup h g @ mesh_calls h w (quad_mesh g) @
            [glBindTexture GL_TEXTURE_2D 0, CheckGLError])) = 1"
proof -
  obtain m where "mesh_heap w (quad_mesh g) = Some m"
    using assms by (auto simp: render_ready_def mesh_ok_def split: option.splits)
  then show ?thesis
    by (simp add: mesh_calls_draws)
qed

lemma offscreen_draws:
  assumes "render_ready h g w"
  shows "length (filter is_glDrawElements
           (offscreen_setup h g @ concat (map (command_calls h g w) (queued_commands g)))) =
         length (queued_commands g)"
  using assms by (simp add: render_ready_def commands_calls_draws)

lemma render_graphics_frame_calls:
  assumes "render_ready h g w"
  shows "render_graphics h g w =
           Ok (g\<lparr>num_commands := 0, num_lights := 0\<rparr>, calls (frame_calls h g w) w)"
  using render_graphics_ok [OF assms] by (simp add: frame_calls_def)

lemma frame_calls_binding:
  "framebuffer_binding (calls (frame_calls h g w) w') = framebuffer_binding w"
proof -
  have "list_all (\<lambda>e. \<not> is_glBindFramebuffer e)
      (composite_setup h g @ mesh_calls h w (quad_mesh g) @
       [glBindTexture GL_TEXTURE_2D 0, CheckGLError])"
    by simp
  from frame_binding [OF this, of "[glGetIntegerv GL_FRAMEBUFFER_BINDING,
      glBindFramebuffer GL_FRAMEBUFFER (framebuffer g)] @
      (offscreen_setup h g @ concat (map (command_calls h g w) (queued_commands g)))"
      "framebuffer_binding w" w']
  show ?thesis
    by (simp add: frame_calls_def)
qed

lemma passes_two_frames:
  assumes "list_all (\<lambda>e. \<not> is_glBindFramebuffer e) off"
    and "list_all (\<lambda>e. \<not> is_glBindFramebuffer e) cps"
    and "list_all (\<lambda>e. \<not> is_glBindFramebuffer e) off'"
    and "list_all (\<lambda>e. \<not> is_glBindFramebuffer e) cps'"
  shows "passes (([glGetIntegerv GL_FRAMEBUFFER_BINDING,
                   glBindFramebuffer GL_FRAMEBUFFER fb] @ off @
                  [CheckGLError, glBindFramebuffer GL_FRAMEBUFFER fb0] @ cps) @
                 ([glGetIntegerv GL_FRAMEBUFFER_BINDING,
                   glBindFramebuffer GL_FRAMEBUFFER fb'] @ off' @
                  [CheckGLError, glBindFramebuffer GL_FRAMEBUFFER fb0'] @ cps')) =
           [(fb, off @ [CheckGLError]),
            (fb0, cps @ [glGetIntegerv GL_FRAMEBUFFER_BINDING]),
            (fb', off' @ [CheckGLError]), (fb0', cps')]"
  using assms
  by (simp add: passes_append_no_bind takeWhile_no_bind_append takeWhile_all passes_no_bind)

lemma render_twice_run:
  assumes "render_ready h g w"
  shows "api_run ndebug h [RenderGraphics, RenderGraphics] (g, w) =
           Ok (g\<lparr>num_commands := 0, num_lights := 0\<rparr>,
               calls (frame_calls h (g\<lparr>num_commands := 0, num_lights := 0\<rparr>)
                        (calls (frame_calls h g w) w))
                 (calls (frame_calls h g w) w))"
  using render_graphics_frame_calls [OF assms]
    render_graphics_frame_calls [OF render_ready_again [OF assms, of "frame_calls h g w"]]
  by simp


lemma draws_per_pass_twice:
  assumes "render_ready h g w"
  shows "draws_per_pass
           (frame_calls h g w @
            frame_calls h (g\<lparr>num_commands := 0, num_lights := 0\<rparr>)
              (calls (frame_calls h g w) w)) =
         [(framebuffer g, length (queued_commands g)), (framebuffer_binding w, 1),
          (framebuffer g, 0), (framebuffer_binding w, 1)]"
proof -
  let ?g1 = "g\<lparr>num_commands := 0, num_lights := 0\<rparr>"
  define w1 where "w1 = calls (frame_calls h g w) w"
  let ?off = "offscreen_setup h g @ concat (map (command_calls h g w) (queued_commands g))"
  let ?cps = "composite_setup h g @ mesh_calls h w (quad_mesh g) @
              [glBindTexture GL_TEXTURE_2D 0, CheckGLError]"
  let ?off' = "offscreen_setup h ?g1 @
               concat (map (command_calls h ?g1 w1) (queued_commands ?g1))"
  let ?cps' = "composite_setup h ?g1 @ mesh_calls h w1 (quad_mesh ?g1) @
               [glBindTexture GL_TEXTURE_2D 0, CheckGLError]"
  have nb: "list_all (\<lambda>e. \<not> is_glBindFramebuffer e) ?off"
    "list_all (\<lambda>e. \<not> is_glBindFramebuffer e) ?cps"
    "list_all (\<lambda>e. \<not> is_glBindFramebuffer e) ?off'"
    "list_all (\<lambda>e. \<not> is_glBindFramebuffer e) ?cps'"
    by simp_all
  have q: "queued_commands ?g1 = []"
    by (simp add: queued_commands_def)
  have c: "?cps' = ?cps"
    by (simp add: w1_def)
  have b: "framebuffer_binding w1 = framebuffer_binding w"
    unfolding w1_def by (rule frame_calls_binding)
  have p: "passes (frame_calls h g w @ frame_calls h ?g1 w1) =
      [(framebuffer g, ?off @ [CheckGLError]),
       (framebuffer_binding w, ?cps @ [glGetIntegerv GL_FRAMEBUFFER_BINDING]),
       (framebuffer ?g1, ?off' @ [CheckGLError]), (framebuffer_binding w1, ?cps')]"
    unfolding frame_calls_def
    by (rule passes_two_frames [OF nb])
  have d: "length (filter is_glDrawElements ?off) = length (queued_commands g)"
    "length (filter is_glDrawElements ?cps) = 1"
    using offscreen_draws [OF assms] quad_draws [OF assms] by simp_all
  show ?thesis
    unfolding w1_def [symmetric] draws_per_pass_def p c
    using d by (simp add: q b)
qed

text \<open>
  C6 (as amended). Two render calls with nothing submitted between them, from any state
  on which the first runs to its end: both return; each frame has an offscreen pass on
  the context's framebuffer and a composite pass on the framebuffer that was bound at
  the start, and the two composite passes are the same calls: they begin by clearing to
  the colour (1, 0, 1, 1) and hold exactly one draw call, the quad. The offscreen pass
  of the second frame holds no draw call; that of the first holds one for every command
  that was queued when it began, so none when the queue was empty.
\<close>

theorem render_twice:
  assumes "render_ready h g w"
  shows "\<exists>g1 w1 g2 w2 frame1 frame2 off1 off2 cps.
      render_graphics h g w = Ok (g1, w1) \<and> trace w1 = trace w @ frame1 \<and>
      render_graphics h g1 w1 = Ok (g2, w2) \<and> trace w2 = trace w1 @ frame2 \<and>
      passes frame1 = [(framebuffer g, off1), (framebuffer_binding w, cps)] \<and>
      passes frame2 = [(framebuffer g, off2), (framebuffer_binding w, cps)] \<and>
      draws_per_pass frame1 =
        [(framebuffer g, length (queued_commands g)), (framebuffer_binding w, 1)] \<and>
      draws_per_pass frame2 = [(framebuffer g, 0), (framebuffer_binding w, 1)] \<and>
      take 2 cps =
        [glClearColor (float_literal h 1) (float_literal h 0) (float_literal h 1)
           (float_literal h 1),
         glClear (GL_COLOR_BUFFER_BIT OR GL_DEPTH_BUFFER_BIT)] \<and>
      g2 = g1"
proof -
  let ?g1 = "g\<lparr>num_commands := 0, num_lights := 0\<rparr>"
  let ?off1 = "offscreen_setup h g @ concat (map (command_calls h g w) (queued_commands g))"
  let ?off2 = "offscreen_setup h ?g1"
  let ?cps = "composite_setup h g @ mesh_calls h w (quad_mesh g) @
              [glBindTexture GL_TEXTURE_2D 0, CheckGLError]"
  let ?frame1 = "[glGetIntegerv GL_FRAMEBUFFER_BINDING,
                  glBindFramebuffer GL_FRAMEBUFFER (framebuffer g)] @ ?off1 @
                 [CheckGLError, glBindFramebuffer GL_FRAMEBUFFER (framebuffer_binding w)] @ ?cps"
  let ?frame2 = "[glGetIntegerv GL_FRAMEBUFFER_BINDING,
                  glBindFramebuffer GL_FRAMEBUFFER (framebuffer g)] @ ?off2 @
                 [CheckGLError, glBindFramebuffer GL_FRAMEBUFFER (framebuffer_binding w)] @ ?cps"
  define w1 where "w1 = calls ?frame1 w"
  have nb1: "list_all (\<lambda>e. \<not> is_glBindFramebuffer e) ?off1"
    and nb2: "list_all (\<lambda>e. \<not> is_glBindFramebuffer e) ?off2"
    and nbc: "list_all (\<lambda>e. \<not> is_glBindFramebuffer e) ?cps"
    by simp_all
  have r1: "render_graphics h g w = Ok (?g1, w1)"
    using render_graphics_ok [OF assms] by (simp add: w1_def)
  have b1: "framebuffer_binding w1 = framebuffer_binding w"
    unfolding w1_def
    using frame_binding [OF nbc, of "[glGetIntegerv GL_FRAMEBUFFER_BINDING,
      glBindFramebuffer GL_FRAMEBUFFER (framebuffer g)] @ ?off1" "framebuffer_binding w" w]
    by simp
  have mc: "mesh_calls h w1 (quad_mesh g) = mesh_calls h w (quad_mesh g)"
    unfolding w1_def by (rule mesh_calls_calls)
  have ready2: "render_ready h ?g1 w1"
    unfolding w1_def by (rule render_ready_again [OF assms])
  have q2: "queued_commands ?g1 = []"
    by (simp add: queued_commands_def)
  have r2: "render_graphics h ?g1 w1 = Ok (?g1, calls ?frame2 w1)"
    using render_graphics_ok [OF ready2] by (simp add: b1 q2 mc)
  have t1: "trace w1 = trace w @ ?frame1"
    unfolding w1_def by (rule trace_calls)
  have t2: "trace (calls ?frame2 w1) = trace w1 @ ?frame2"
    by (rule trace_calls)
  note p1 = frame_passes [OF nb1 nbc, of "framebuffer g" "framebuffer_binding w"]
  note p2 = frame_passes [OF nb2 nbc, of "framebuffer g" "framebuffer_binding w"]
  have d1: "draws_per_pass ?frame1 =
      [(framebuffer g, length (queued_commands g)), (framebuffer_binding w, 1)]"
    unfolding draws_per_pass_frame [OF nb1 nbc] offscreen_draws [OF assms] quad_draws [OF assms]
    by (rule refl)
  have d2: "draws_per_pass ?frame2 = [(framebuffer g, 0), (framebuffer_binding w, 1)]"
    unfolding draws_per_pass_frame [OF nb2 nbc] quad_draws [OF assms]
    by simp
  note tk = composite_setup_take [of h g "mesh_calls h w (quad_mesh g) @
              [glBindTexture GL_TEXTURE_2D 0, CheckGLError]"]
  show ?thesis
    by (intro exI conjI, rule r1, rule t1, rule r2, rule t2, rule p1, rule p2, rule d1,
        rule d2, rule tk, rule refl)
qed

theorem render_twice_witness:
  "\<exists>g1 w1 g2 w2 frame1 frame2 off1 off2 cps.
      render_graphics example_headers example_graphics example_world = Ok (g1, w1) \<and>
      trace w1 = trace example_world @ frame1 \<and>
      render_graphics example_headers g1 w1 = Ok (g2, w2) \<and> trace w2 = trace w1 @ frame2 \<and>
      passes frame1 = [(1, off1), (7, cps)] \<and>
      passes frame2 = [(1, off2), (7, cps)] \<and>
      draws_per_pass frame1 = [(1, 0), (7, 1)] \<and>
      draws_per_pass frame2 = [(1, 0), (7, 1)] \<and>
      take 2 cps = [glClearColor 1 0 1 1, glClear (GL_COLOR_BUFFER_BIT OR GL_DEPTH_BUFFER_BIT)] \<and>
      g2 = g1"
proof -
  have "framebuffer example_graphics = 1" "framebuffer_binding example_world = 7"
    "float_literal example_headers = (\<lambda>q. q)"
    by (simp_all add: example_graphics_def example_world_def example_headers_def)
  then show ?thesis
    using render_twice [OF example_render_ready] by (simp add: example_queues_empty)
qed

text \<open>
  One command submitted before the first of the two renders: its offscreen pass draws a mesh
  (passes are listed with their framebuffer and their number of draw calls).
\<close>

theorem render_twice_counterexample:
  "draws_per_pass (trace (snd (state_of
      (api_run False example_headers
         [AddRenderCommand 3 2 5, RenderGraphics, RenderGraphics]
         (example_graphics, example_world))))) =
   [(1, 1), (7, 1), (1, 0), (7, 1)]"
proof -
  let ?c = "\<lparr>transform = 5::int, mesh = 3, diffuse = 2\<rparr>"
  define ga where "ga = example_graphics\<lparr>num_commands := num_commands example_graphics + 1,
      commands := (commands example_graphics)[nat (num_commands example_graphics) := ?c]\<rparr>"
  have lt: "num_commands example_graphics < MAX_RENDER_COMMANDS"
    by (simp add: example_queues_empty MAX_RENDER_COMMANDS_def)
  have add: "add_render_command False example_graphics 3 2 5 = Ok ga"
    unfolding ga_def by (rule add_render_command_Ok [OF example_graphics_inv lt])
  have qa: "queued_commands ga = [?c]"
    unfolding ga_def
    using queued_after_add_command [OF example_graphics_inv lt, of ?c]
    by (simp add: example_queues_empty)
  have fa: "framebuffer ga = 1" "quad_mesh ga = 2"
    "num_commands ga \<le> int (length (commands ga))"
    by (simp_all add: ga_def example_graphics_def)
  have ready: "render_ready example_headers ga example_world"
    using example_command_ok(1) [of 5] example_mesh_ok(2)
    by (simp add: render_ready_def qa fa)
  have "api_run False example_headers [AddRenderCommand 3 2 5, RenderGraphics, RenderGraphics]
      (example_graphics, example_world) =
      api_run False example_headers [RenderGraphics, RenderGraphics] (ga, example_world)"
    by (simp add: add del: api_run.simps(2) [of _ _ RenderGraphics])
  then have "trace (snd (state_of (api_run False example_headers
      [AddRenderCommand 3 2 5, RenderGraphics, RenderGraphics]
      (example_graphics, example_world)))) =
      frame_calls example_headers ga example_world @
      frame_calls example_headers (ga\<lparr>num_commands := 0, num_lights := 0\<rparr>)
        (calls (frame_calls example_headers ga example_world) example_world)"
    by (simp only: render_twice_run [OF ready]) (simp add: example_world_def)
  then show ?thesis
    using draws_per_pass_twice [OF ready]
    by (simp add: qa fa example_world_def)
qed

lemma frame_calls_uploads:
  assumes "render_ready h g w"
  shows "filter is_glUniformMatrix4fv (frame_calls h g w) =
     glUniformMatrix4fv (projection_uniform g) 1 GL_FALSE (projection_matrix g) #
     glUniformMatrix4fv (view_uniform g) 1 GL_FALSE
       (mat4_inverse h (transform_get_matrix h (view_transform g))) #
     map (\<lambda>c. glUniformMatrix4fv (world_uniform g) 1 GL_FALSE
                (transform_get_matrix h (transform c))) (queued_commands g)"
  using assms by (simp add: frame_calls_def render_ready_def commands_calls_uploads)

lemma api_run_last_view:
  assumes "api_run ndebug h (pre @ SetViewTransform T # post) s0 = Ok (g, w)"
    and "list_all (\<lambda>c. \<not> is_set_view c) post"
  shows "view_transform g = T"
proof -
  obtain g1 w1 where s1: "api_run ndebug h pre s0 = Ok (g1, w1)"
    using assms(1) by (cases "api_run ndebug h pre s0") (auto simp: api_run_append)
  then have "api_run ndebug h post (set_view_transform g1 T, w1) = Ok (g, w)"
    using assms(1) by (simp add: api_run_append)
  then have "view_transform g = view_transform (set_view_transform g1 T)"
    using api_run_view [OF assms(2), of ndebug h "(set_view_transform g1 T, w1)"] by simp
  then show ?thesis
    by (simp add: set_view_transform_def)
qed

text \<open>
  C3. Let a run of the frame interface return, with \<^verbatim>\<open>set_view_transform(T)\<close> as its last
  camera change, and let the render call that follows run to its end. The matrices that
  frame uploads are, in order: the projection matrix to the Projection uniform, then
  \<open>mat4_inverse (transform_get_matrix T)\<close> to the View uniform, then one world matrix for
  each queued command.
\<close>

theorem view_uniform_is_inverse_of_last_view:
  assumes "api_run ndebug h (pre @ SetViewTransform T # post) s0 = Ok (g, w)"
    and "list_all (\<lambda>c. \<not> is_set_view c) post"
    and "render_ready h g w"
  shows "\<exists>g' w' frame. render_graphics h g w = Ok (g', w') \<and> trace w' = trace w @ frame \<and>
     filter is_glUniformMatrix4fv frame =
       glUniformMatrix4fv (projection_uniform g) 1 GL_FALSE (projection_matrix g) #
       glUniformMatrix4fv (view_uniform g) 1 GL_FALSE
         (mat4_inverse h (transform_get_matrix h T)) #
       map (\<lambda>c. glUniformMatrix4fv (world_uniform g) 1 GL_FALSE
                  (transform_get_matrix h (transform c))) (queued_commands g)"
proof -
  note r = render_graphics_frame_calls [OF assms(3)]
  have t: "trace (calls (frame_calls h g w) w) = trace w @ frame_calls h g w"
    by (rule trace_calls)
  have u: "filter is_glUniformMatrix4fv (frame_calls h g w) =
       glUniformMatrix4fv (projection_uniform g) 1 GL_FALSE (projection_matrix g) #
       glUniformMatrix4fv (view_uniform g) 1 GL_FALSE
         (mat4_inverse h (transform_get_matrix h T)) #
       map (\<lambda>c. glUniformMatrix4fv (world_uniform g) 1 GL_FALSE
                  (transform_get_matrix h (transform c))) (queued_commands g)"
    using frame_calls_uploads [OF assms(3)] api_run_last_view [OF assms(1,2)] by simp
  show ?thesis
    by (intro exI conjI, rule r, rule t, rule u)
qed

theorem view_uniform_is_inverse_of_last_view_witness:
  "\<exists>g w g' w' frame.
     api_run False example_headers
       ([SetViewTransform 40, AddRenderCommand 3 2 5] @ SetViewTransform 11 #
        [AddRenderCommand 2 3 6]) (example_graphics, example_world) = Ok (g, w) \<and>
     render_graphics example_headers g w = Ok (g', w') \<and> trace w' = trace w @ frame \<and>
     filter is_glUniformMatrix4fv frame =
       [glUniformMatrix4fv 0 1 GL_FALSE 1970, glUniformMatrix4fv 1 1 GL_FALSE (- 111),
        glUniformMatrix4fv 2 1 GL_FALSE 105, glUniformMatrix4fv 2 1 GL_FALSE 106]"
proof -
  let ?cs = "[SetViewTransform 40, AddRenderCommand 3 2 (5::int), SetViewTransform 11,
              AddRenderCommand 2 3 6] :: (int, nat) api_call list"
  have a: "list_all (\<lambda>c. \<not> is_render c) ?cs"
    by simp
  have b: "num_commands example_graphics + int (length (submitted_commands ?cs))
        \<le> MAX_RENDER_COMMANDS"
    by (simp add: example_queues_empty MAX_RENDER_COMMANDS_def)
  have c: "num_lights example_graphics + int (length (submitted_lights ?cs)) \<le> MAX_LIGHTS"
    by (simp add: example_queues_empty MAX_LIGHTS_def)
  have d: "list_all (command_ok example_headers example_world)
      (queued_commands example_graphics @ submitted_commands ?cs)"
    by (simp add: example_queues_empty example_command_ok)
  have e: "mesh_ok example_headers example_world (quad_mesh example_graphics)"
    by (simp add: example_queues_empty example_mesh_ok)
  obtain g where g: "api_run False example_headers ?cs (example_graphics, example_world) =
      Ok (g, example_world)" "render_ready example_headers g example_world"
      "queued_commands g = queued_commands example_graphics @ submitted_commands ?cs"
      "g = example_graphics\<lparr>view_transform := view_transform g, commands := commands g,
                   num_commands := num_commands g, lights := lights g,
                   num_lights := num_lights g\<rparr>"
    using submissions_render_ready [OF example_graphics_inv a b c d e, of False] by blast
  have run: "api_run False example_headers
       ([SetViewTransform 40, AddRenderCommand 3 2 5] @ SetViewTransform 11 #
        [AddRenderCommand 2 3 6]) (example_graphics, example_world) = Ok (g, example_world)"
    using g(1) by simp
  have nv: "list_all (\<lambda>c. \<not> is_set_view c) [AddRenderCommand 2 3 (6::int) :: (int, nat) api_call]"
    by simp
  have f: "projection_uniform g = 0" "view_uniform g = 1" "world_uniform g = 2"
    "projection_matrix g = 1970"
    by (subst g(4), simp add: example_graphics_def)+
  have hd: "mat4_inverse example_headers = uminus"
    "transform_get_matrix example_headers = (\<lambda>t. t + 100)"
    by (simp_all add: example_headers_def)
  obtain g' w' frame where
    "render_graphics example_headers g example_world = Ok (g', w')"
    "trace w' = trace example_world @ frame"
    "filter is_glUniformMatrix4fv frame =
       [glUniformMatrix4fv 0 1 GL_FALSE 1970, glUniformMatrix4fv 1 1 GL_FALSE (- 111),
        glUniformMatrix4fv 2 1 GL_FALSE 105, glUniformMatrix4fv 2 1 GL_FALSE 106]"
    using view_uniform_is_inverse_of_last_view [OF run nv g(2)]
    by (auto simp: f hd g(3) example_queues_empty)
  then show ?thesis
    using run by blast
qed

lemma command_calls_world_uniform:
  "world_uniform g' = world_uniform g \<Longrightarrow> command_calls h g' w = command_calls h g w"
  by (rule ext) (simp add: command_calls_def split: option.splits)

lemma frame_calls_lights:
  "filter is_glUniform3fv (frame_calls h g w) =
     [glUniform3fv (lights_uniform g) (num_lights g) (lights g)]"
  by (simp add: frame_calls_def)

lemma frame_calls_passes:
  "passes (frame_calls h g w) =
     [(framebuffer g,
       (offscreen_setup h g @ concat (map (command_calls h g w) (queued_commands g))) @
       [CheckGLError]),
      (framebuffer_binding w,
       composite_setup h g @ mesh_calls h w (quad_mesh g) @
       [glBindTexture GL_TEXTURE_2D 0, CheckGLError])]"
  unfolding frame_calls_def by (rule frame_passes) simp_all

lemma queued_lights_length:
  "graphics_inv g \<Longrightarrow> int (length (queued_lights g)) = num_lights g"
proof -
  assume "graphics_inv g"
  then have "0 \<le> num_lights g" "nat (num_lights g) \<le> length (lights g)"
    by (simp_all add: graphics_inv_def nat_le_iff)
  then show ?thesis
    by (simp add: queued_lights_def min_absorb2)
qed

text \<open>
  C4. After any sequence of submissions within capacity, the render call runs an
  offscreen pass that consists of the fixed setup, then the calls of each queued command
  (its world matrix, its texture, the draw of its mesh) block after block in the order
  of submission, and nothing else but the closing error check; the draw calls of the
  pass are one per command, in that order. The lights are uploaded by one call
  that passes the array and the number of lights, and the array holds the submitted
  lights at the front, in the order of submission.
\<close>

theorem draws_in_submission_order:
  assumes "graphics_inv g" "list_all (\<lambda>c. \<not> is_render c) cs"
    and "num_commands g + int (length (submitted_commands cs)) \<le> MAX_RENDER_COMMANDS"
    and "num_lights g + int (length (submitted_lights cs)) \<le> MAX_LIGHTS"
    and "list_all (command_ok h w) (queued_commands g @ submitted_commands cs)"
    and "mesh_ok h w (quad_mesh g)"
  shows "\<exists>g1 g' w' frame off cps.
     api_run ndebug h cs (g, w) = Ok (g1, w) \<and>
     render_graphics h g1 w = Ok (g', w') \<and> trace w' = trace w @ frame \<and>
     passes frame = [(framebuffer g, off), (framebuffer_binding w, cps)] \<and>
     off = offscreen_setup h g1 @
           concat (map (command_calls h g w) (queued_commands g @ submitted_commands cs)) @
           [CheckGLError] \<and>
     filter is_glDrawElements off =
       map (\<lambda>c. glDrawElements GL_TRIANGLES (index_count (the (mesh_heap w (mesh c))))
                  (index_format (the (mesh_heap w (mesh c)))))
         (queued_commands g @ submitted_commands cs) \<and>
     filter is_glUniform3fv frame =
       [glUniform3fv (lights_uniform g)
          (int (length (queued_lights g @ submitted_lights cs))) (lights g1)] \<and>
     take (length (queued_lights g @ submitted_lights cs)) (lights g1) =
       queued_lights g @ submitted_lights cs"
proof -
  obtain g1 where g1: "api_run ndebug h cs (g, w) = Ok (g1, w)" "graphics_inv g1"
      "render_ready h g1 w"
      "queued_commands g1 = queued_commands g @ submitted_commands cs"
      "queued_lights g1 = queued_lights g @ submitted_lights cs"
      "g1 = g\<lparr>view_transform := view_transform g1, commands := commands g1,
                num_commands := num_commands g1, lights := lights g1,
                num_lights := num_lights g1\<rparr>"
    using submissions_render_ready [OF assms, of ndebug] by blast
  have f: "framebuffer g1 = framebuffer g" "world_uniform g1 = world_uniform g"
    "lights_uniform g1 = lights_uniform g"
    by (subst g1(6), simp)+
  let ?cmds = "queued_commands g @ submitted_commands cs"
  let ?off = "offscreen_setup h g1 @ concat (map (command_calls h g w) ?cmds) @ [CheckGLError]"
  note r = render_graphics_frame_calls [OF g1(3)]
  have t: "trace (calls (frame_calls h g1 w) w) = trace w @ frame_calls h g1 w"
    by (rule trace_calls)
  have p: "passes (frame_calls h g1 w) =
      [(framebuffer g, ?off),
       (framebuffer_binding w,
        composite_setup h g1 @ mesh_calls h w (quad_mesh g1) @
        [glBindTexture GL_TEXTURE_2D 0, CheckGLError])]"
    unfolding frame_calls_passes
    by (simp add: f g1(4) command_calls_world_uniform [OF f(2)])
  have d: "filter is_glDrawElements ?off =
       map (\<lambda>c. glDrawElements GL_TRIANGLES (index_count (the (mesh_heap w (mesh c))))
                  (index_format (the (mesh_heap w (mesh c))))) ?cmds"
    using commands_calls_draws [OF assms(5), of g] by simp
  have l: "filter is_glUniform3fv (frame_calls h g1 w) =
       [glUniform3fv (lights_uniform g)
          (int (length (queued_lights g @ submitted_lights cs))) (lights g1)]"
    using queued_lights_length [OF g1(2)]
    by (simp add: frame_calls_lights f g1(5))
  have k: "take (length (queued_lights g @ submitted_lights cs)) (lights g1) =
       queued_lights g @ submitted_lights cs"
  proof -
    have "length (queued_lights g1) = nat (num_lights g1)"
      using queued_lights_length [OF g1(2)] by linarith
    then have "take (length (queued_lights g1)) (lights g1) = queued_lights g1"
      by (simp add: queued_lights_def)
    then show ?thesis
      by (simp only: g1(5))
  qed
  show ?thesis
    by (intro exI conjI, rule g1(1), rule r, rule t, rule p, rule refl, rule d, rule l, rule k)
qed


theorem draws_in_submission_order_witness:
  "\<exists>g1 g' w' frame off cps.
     api_run False example_headers
       [AddRenderCommand 3 2 5, AddDirectionalLight 7, AddRenderCommand 2 3 6,
        AddDirectionalLight 8] (example_graphics, example_world) = Ok (g1, example_world) \<and>
     render_graphics example_headers g1 example_world = Ok (g', w') \<and>
     trace w' = trace example_world @ frame \<and>
     passes frame = [(1, off), (7, cps)] \<and>
     filter is_glDrawElements off =
       [glDrawElements GL_TRIANGLES 36 0x1403, glDrawElements GL_TRIANGLES 6 0x1403] \<and>
     filter is_glUniform3fv frame = [glUniform3fv 4 2 (lights g1)] \<and>
     take 2 (lights g1) = [7, 8]"
proof -
  let ?cs = "[AddRenderCommand 3 2 (5::int), AddDirectionalLight (7::nat),
              AddRenderCommand 2 3 6, AddDirectionalLight 8]"
  have a: "list_all (\<lambda>c. \<not> is_render c) ?cs"
    by simp
  have b: "num_commands example_graphics + int (length (submitted_commands ?cs))
        \<le> MAX_RENDER_COMMANDS"
    by (simp add: example_queues_empty MAX_RENDER_COMMANDS_def)
  have c: "num_lights example_graphics + int (length (submitted_lights ?cs)) \<le> MAX_LIGHTS"
    by (simp add: example_queues_empty MAX_LIGHTS_def)
  have d: "list_all (command_ok example_headers example_world)
      (queued_commands example_graphics @ submitted_commands ?cs)"
    by (simp add: example_queues_empty example_command_ok)
  have e: "mesh_ok example_headers example_world (quad_mesh example_graphics)"
    by (simp add: example_queues_empty example_mesh_ok)
  have f: "framebuffer example_graphics = 1" "framebuffer_binding example_world = 7"
    "lights_uniform example_graphics = 4"
    "the (mesh_heap example_world 3) = example_cube"
    "the (mesh_heap example_world 2) = example_quad"
    "index_count example_cube = 36" "index_format example_cube = 0x1403"
    "index_count example_quad = 6" "index_format example_quad = 0x1403"
    by (simp_all add: example_graphics_def example_world_def example_cube_def example_quad_def)
  obtain g1 g' w' frame off cps where k:
    "api_run False example_headers ?cs (example_graphics, example_world) =
       Ok (g1, example_world)"
    "render_graphics example_headers g1 example_world = Ok (g', w')"
    "trace w' = trace example_world @ frame"
    "passes frame = [(framebuffer example_graphics, off),
                     (framebuffer_binding example_world, cps)]"
    "filter is_glDrawElements off =
       map (\<lambda>c. glDrawElements GL_TRIANGLES
                  (index_count (the (mesh_heap example_world (mesh c))))
                  (index_format (the (mesh_heap example_world (mesh c)))))
         (queued_commands example_graphics @ submitted_commands ?cs)"
    "filter is_glUniform3fv frame =
       [glUniform3fv (lights_uniform example_graphics)
          (int (length (queued_lights example_graphics @ submitted_lights ?cs))) (lights g1)]"
    "take (length (queued_lights example_graphics @ submitted_lights ?cs)) (lights g1) =
       queued_lights example_graphics @ submitted_lights ?cs"
    using draws_in_submission_order [OF example_graphics_inv a b c d e, of False]
    by blast
  have k4: "passes frame = [(1, off), (7, cps)]"
    using k(4) by (simp add: f)
  have k5: "filter is_glDrawElements off =
       [glDrawElements GL_TRIANGLES 36 0x1403, glDrawElements GL_TRIANGLES 6 0x1403]"
    using k(5) by (simp add: f example_queues_empty)
  have k6: "filter is_glUniform3fv frame = [glUniform3fv 4 2 (lights g1)]"
    using k(6) by (simp add: f example_queues_empty)
  have k7: "take 2 (lights g1) = [7, 8]"
    using k(7) by (simp add: example_queues_empty numeral_2_eq_2)
  show ?thesis
    by (intro exI conjI, rule k(1), rule k(2), rule k(3), rule k4, rule k5, rule k6, rule k7)
qed

end
